theory Spec2Isabelle
  imports Complex_Main
begin

section \<open>JavaScript strings and values\<close>

text \<open>
  A JavaScript string is modelled as a \<^typ>\<open>string\<close>; \<open>s.length\<close> is \<^term>\<open>length s\<close> and
  \<open>s[i]\<close> is \<open>undefined\<close> exactly when \<open>i\<close> is not below the length. Identifier names are
  taken to be ASCII: \<open>toUpperCase\<close> maps \<open>a..z\<close> to \<open>A..Z\<close> and leaves every other
  character alone. A value that may be \<open>undefined\<close> is an \<open>option\<close>.
\<close>

datatype js_error = TypeError | IOError

definition toUpperCase :: "char \<Rightarrow> char" where
  "toUpperCase c =
     (case c of Char b0 b1 b2 b3 b4 b5 b6 b7 \<Rightarrow>
        if 97 \<le> (of_char c :: nat) \<and> (of_char c :: nat) \<le> 122
        then Char b0 b1 b2 b3 b4 False b6 b7 else c)"

definition startsWith :: "string \<Rightarrow> string \<Rightarrow> bool" where
  "startsWith s p = (take (length p) s = p)"

definition endsWith :: "string \<Rightarrow> string \<Rightarrow> bool" where
  "endsWith s p = (length p \<le> length s \<and> drop (length s - length p) s = p)"

fun str_includes :: "string \<Rightarrow> string \<Rightarrow> bool" where
  "str_includes [] p = (p = [])"
| "str_includes (c # cs) p = (startsWith (c # cs) p \<or> str_includes cs p)"

text \<open>\<open>s.replace(p, r)\<close> with a string pattern: only the first occurrence is replaced.\<close>

fun replace_first :: "string \<Rightarrow> string \<Rightarrow> string \<Rightarrow> string" where
  "replace_first [] p r = (if p = [] then r else [])"
| "replace_first (c # cs) p r =
     (if startsWith (c # cs) p then r @ drop (length p) (c # cs)
      else c # replace_first cs p r)"

text \<open>\<open>xs.join(sep)\<close>.\<close>

fun join :: "string \<Rightarrow> string list \<Rightarrow> string" where
  "join sep [] = []"
| "join sep [x] = x"
| "join sep (x # y # ys) = x @ sep @ join sep (y # ys)"

text \<open>Truthiness of a possibly undefined string: defined and not empty.\<close>

fun truthy :: "string option \<Rightarrow> bool" where
  "truthy None = False"
| "truthy (Some s) = (s \<noteq> [])"

text \<open>\<open>a || b\<close> on possibly undefined strings.\<close>

definition js_or :: "string option \<Rightarrow> string option \<Rightarrow> string option" where
  "js_or a b = (if truthy a then a else b)"

section \<open>Syntax trees as the parser delivers them\<close>

text \<open>
  The parser is an external library; its result is modelled by the part of the tree that the
  visitors read. Every node kind without a visitor of its own is \<open>Other\<close>, with the name
  of its \<open>id\<close> (when it has one) and its children. The node lists are the children in the
  order the traversal enters them.
\<close>

datatype param =
    PIdentifier string
  | PObjectPattern "string option list"
  | PArrayPattern "string option list"
  | PRestElement "string option"
  | POther

datatype node =
    ImportDeclaration string
  | ExportDefaultDeclaration node
  | ExportNamedDeclaration "node option" "string list"
  | FunctionDeclaration "string option" "param list" bool "node list"
  | VariableDeclaration "node list"
  | VariableDeclarator "string option" "node list"
  | ArrowFunctionExpression "param list" bool "node list"
  | CallExpression "string option" "node list"
  | Identifier string
  | Other "string option" "node list"

fun children :: "node \<Rightarrow> node list" where
  "children (ImportDeclaration src) = []"
| "children (ExportDefaultDeclaration d) = [d]"
| "children (ExportNamedDeclaration d specs) = (case d of None \<Rightarrow> [] | Some n \<Rightarrow> [n])"
| "children (FunctionDeclaration i ps a body) = body"
| "children (VariableDeclaration ds) = ds"
| "children (VariableDeclarator i ini) = ini"
| "children (ArrowFunctionExpression ps a body) = body"
| "children (CallExpression callee sub) = sub"
| "children (Identifier x) = []"
| "children (Other i sub) = sub"

text \<open>The \<open>name\<close> property of a node and the name of its \<open>id\<close>.\<close>

fun node_name :: "node \<Rightarrow> string option" where
  "node_name (Identifier x) = Some x"
| "node_name n = None"

fun node_id_name :: "node \<Rightarrow> string option" where
  "node_id_name (FunctionDeclaration i ps a body) = i"
| "node_id_name (VariableDeclarator i ini) = i"
| "node_id_name (Other i sub) = i"
| "node_id_name n = None"

fun isExportDeclaration :: "node \<Rightarrow> bool" where
  "isExportDeclaration (ExportDefaultDeclaration d) = True"
| "isExportDeclaration (ExportNamedDeclaration d specs) = True"
| "isExportDeclaration n = False"

text \<open>
  \<open>traverse(ast, visitors)\<close>: depth first, the visitor of a node runs when the node is
  entered, before its children. The second argument is the chain of \<open>parentPath\<close>s,
  innermost first. A visitor that throws ends the traversal; the state reached so far is
  kept next to the error, since the visitors write into objects that outlive the call.
  These two functions are the calls of the visitors only. The scope building that the
  library runs before the first visitor, and that can throw by itself on a tree of the
  recovering parser, is the \<open>crawler\<close> of the budget-aware generator below.
\<close>

function traverse ::
    "(node list \<Rightarrow> node \<Rightarrow> 's \<Rightarrow> js_error + 's) \<Rightarrow> node list \<Rightarrow> node \<Rightarrow> 's \<Rightarrow> (js_error \<times> 's) + 's"
  and traverse_list ::
    "(node list \<Rightarrow> node \<Rightarrow> 's \<Rightarrow> js_error + 's) \<Rightarrow> node list \<Rightarrow> node list \<Rightarrow> 's \<Rightarrow> (js_error \<times> 's) + 's"
where
  "traverse v anc n s =
     (case v anc n s of
        Inl e \<Rightarrow> Inl (e, s)
      | Inr s' \<Rightarrow> traverse_list v (n # anc) (children n) s')"
| "traverse_list v anc [] s = Inr s"
| "traverse_list v anc (n # ns) s =
     (case traverse v anc n s of
        Inl e \<Rightarrow> Inl e
      | Inr s' \<Rightarrow> traverse_list v anc ns s')"
  by pat_completeness auto
termination
proof (relation "measure (\<lambda>x. case x of
          Inl (v, anc, n, s) \<Rightarrow> 2 * size n + 1
        | Inr (v, anc, ns, s) \<Rightarrow> 2 * size_list size ns)")
  show "wf (measure (\<lambda>x. case x of
          Inl (v, anc, n, s) \<Rightarrow> 2 * size n + 1
        | Inr (v, anc, ns, s) \<Rightarrow> 2 * size_list size ns))"
    by simp
next
  fix v :: "node list \<Rightarrow> node \<Rightarrow> 's \<Rightarrow> js_error + 's" and anc n s s'
  have "size_list size (children n) \<le> size n"
    by (cases n) (simp_all split: option.splits)
  then show "(Inr (v, n # anc, children n, s'), Inl (v, anc, n, s))
        \<in> measure (\<lambda>x. case x of
          Inl (v, anc, n, s) \<Rightarrow> 2 * size n + 1
        | Inr (v, anc, ns, s) \<Rightarrow> 2 * size_list size ns)"
    by simp
qed simp_all

text \<open>\<open>isExported(path)\<close>: walk from the path itself up the parents until an export
  declaration is met.\<close>

definition isExported :: "node list \<Rightarrow> bool" where
  "isExported chain = list_ex isExportDeclaration chain"

section \<open>Classification of declared names\<close>

text \<open>\<open>name.startsWith('use') && name[3] === name[3].toUpperCase()\<close>. After the prefix
  test the name has at least three characters; when it has exactly three, \<open>name[3]\<close> is
  \<open>undefined\<close> and the call of \<open>toUpperCase\<close> on it throws a TypeError.\<close>

definition useThenUpper :: "string \<Rightarrow> js_error + bool" where
  "useThenUpper s =
     (if \<not> startsWith s ''use'' then Inr False
      else if 3 < length s then Inr (s ! 3 = toUpperCase (s ! 3))
      else Inl TypeError)"

definition httpVerbs :: "string list" where
  "httpVerbs = [''GET'', ''POST'', ''PUT'', ''DELETE'', ''PATCH'']"

subsection \<open>Comprehensive generator\<close>

definition isReactComponent :: "string option \<Rightarrow> bool" where
  "isReactComponent name =
     (case name of
        None \<Rightarrow> False
      | Some s \<Rightarrow> (case s of [] \<Rightarrow> False | c # cs \<Rightarrow> c = toUpperCase c))"

definition isCustomHook :: "string option \<Rightarrow> js_error + bool" where
  "isCustomHook name =
     (case name of
        None \<Rightarrow> Inr False
      | Some s \<Rightarrow> if s = [] then Inr False else useThenUpper s)"

definition isApiRoute :: "string \<Rightarrow> string option \<Rightarrow> bool" where
  "isApiRoute filePath funcName =
     (str_includes filePath ''/api/'' \<and>
      (case funcName of None \<Rightarrow> False | Some s \<Rightarrow> s \<in> set (httpVerbs @ [''default''])))"

subsection \<open>Budget-aware generator\<close>

definition classifyFunction :: "string option \<Rightarrow> js_error + string" where
  "classifyFunction name =
     (case name of
        None \<Rightarrow> Inr ''function''
      | Some s \<Rightarrow>
          (case s of
             [] \<Rightarrow> Inr ''function''
           | c # cs \<Rightarrow>
               if c = toUpperCase c then Inr ''component''
               else (case useThenUpper s of
                       Inl e \<Rightarrow> Inl e
                     | Inr True \<Rightarrow> Inr ''hook''
                     | Inr False \<Rightarrow>
                         if s \<in> set httpVerbs then Inr ''handler'' else Inr ''function'')))"

section \<open>Paths\<close>

text \<open>Paths are POSIX strings. \<open>path.join\<close> is only applied to a directory and a name
  below it, \<open>path.relative\<close> only to a directory and a path that was joined under it. The
  resolved project path is taken not to be the root directory, so it ends without a slash.\<close>

definition path_join :: "string \<Rightarrow> string \<Rightarrow> string" where
  "path_join dir name = dir @ ''/'' @ name"

definition path_relative :: "string \<Rightarrow> string \<Rightarrow> string" where
  "path_relative from target =
     (if startsWith target (from @ ''/'') then drop (length from + 1) target else target)"

definition basename :: "string \<Rightarrow> string" where
  "basename p = rev (takeWhile (\<lambda>c. c \<noteq> CHR ''/'') (rev p))"

text \<open>\<open>path.extname\<close>: from the last dot of the base name, unless there is none or it is
  the first character.\<close>

definition extname :: "string \<Rightarrow> string" where
  "extname p =
     (let b = basename p; e = rev (takeWhile (\<lambda>c. c \<noteq> CHR ''.'') (rev b))
      in if CHR ''.'' \<in> set b \<and> Suc (length e) < length b then CHR ''.'' # e else [])"

text \<open>\<open>path.basename(p, path.extname(p))\<close>.\<close>

definition stem :: "string \<Rightarrow> string" where
  "stem p = (let b = basename p in take (length b - length (extname p)) b)"

section \<open>Comprehensive generator: analysis of one file\<close>

record func =
  f_name :: "string option"
  f_params :: "string list"
  f_async :: bool
  f_isExported :: bool

text \<open>The specifiers stored next to each import source are never read again and are left
  out; an export is its name and its kind.\<close>

record analysis =
  a_imports :: "string list"
  a_exports :: "(string \<times> string) list"
  a_functions :: "func list"
  a_components :: "func list"
  a_hooks :: "func list"
  a_apiRoutes :: "func list"
  a_nextjsFeatures :: "string list"

definition empty_analysis :: analysis where
  "empty_analysis =
     \<lparr>a_imports = [], a_exports = [], a_functions = [], a_components = [], a_hooks = [],
      a_apiRoutes = [], a_nextjsFeatures = []\<rparr>"

definition orDots :: "string option \<Rightarrow> string" where
  "orDots k = (case k of None \<Rightarrow> ''...'' | Some s \<Rightarrow> if s = [] then ''...'' else s)"

fun getParamName :: "param \<Rightarrow> string" where
  "getParamName (PIdentifier x) = x"
| "getParamName (PObjectPattern ks) = ''{'' @ join '', '' (map orDots ks) @ ''}''"
| "getParamName (PArrayPattern es) = ''['' @ join '', '' (map orDots es) @ '']''"
| "getParamName (PRestElement a) =
     ''...'' @ (case a of None \<Rightarrow> ''undefined'' | Some s \<Rightarrow> s)"
| "getParamName POther = ''complex''"

definition nextjsDataFetchingFns :: "string list" where
  "nextjsDataFetchingFns = [''getServerSideProps'', ''getStaticProps'', ''getStaticPaths'']"

definition pushFeatureIfFetching :: "string option \<Rightarrow> analysis \<Rightarrow> analysis" where
  "pushFeatureIfFetching name a =
     (case name of
        None \<Rightarrow> a
      | Some s \<Rightarrow>
          if s \<in> set nextjsDataFetchingFns
          then a\<lparr>a_nextjsFeatures := a_nextjsFeatures a @ [s]\<rparr> else a)"

text \<open>\<open>declaration.name || declaration.id?.name || 'default'\<close>.\<close>

definition getExportName :: "node \<Rightarrow> string" where
  "getExportName d =
     (case js_or (node_name d) (node_id_name d) of
        None \<Rightarrow> ''default''
      | Some s \<Rightarrow> if s = [] then ''default'' else s)"

definition visitExportDefault :: "node \<Rightarrow> analysis \<Rightarrow> analysis" where
  "visitExportDefault d a =
     (let name = getExportName d
      in pushFeatureIfFetching (Some name) (a\<lparr>a_exports := a_exports a @ [(name, ''default'')]\<rparr>))"

fun visitExportNamed :: "node option \<Rightarrow> string list \<Rightarrow> analysis \<Rightarrow> analysis" where
  "visitExportNamed d specs a =
     (let a1 = (case d of
                  Some (FunctionDeclaration i ps asy body) \<Rightarrow> pushFeatureIfFetching i a
                | _ \<Rightarrow> a);
          a2 = (case d of
                  Some (VariableDeclaration ds) \<Rightarrow>
                    fold (\<lambda>decl acc. pushFeatureIfFetching (node_id_name decl) acc) ds a1
                | _ \<Rightarrow> a1)
      in fold (\<lambda>spec acc.
                 pushFeatureIfFetching (Some spec)
                   (acc\<lparr>a_exports := a_exports acc @ [(spec, ''named'')]\<rparr>)) specs a2)"

text \<open>The three-way (function declaration) and two-way (arrow function) classification of
  a captured descriptor.\<close>

definition classifyDeclared :: "string \<Rightarrow> func \<Rightarrow> analysis \<Rightarrow> js_error + analysis" where
  "classifyDeclared filePath fn a =
     (if isReactComponent (f_name fn) then Inr (a\<lparr>a_components := a_components a @ [fn]\<rparr>)
      else (case isCustomHook (f_name fn) of
              Inl e \<Rightarrow> Inl e
            | Inr True \<Rightarrow> Inr (a\<lparr>a_hooks := a_hooks a @ [fn]\<rparr>)
            | Inr False \<Rightarrow>
                if isApiRoute filePath (f_name fn)
                then Inr (a\<lparr>a_apiRoutes := a_apiRoutes a @ [fn]\<rparr>)
                else Inr (a\<lparr>a_functions := a_functions a @ [fn]\<rparr>)))"

definition classifyArrow :: "func \<Rightarrow> analysis \<Rightarrow> js_error + analysis" where
  "classifyArrow fn a =
     (if isReactComponent (f_name fn) then Inr (a\<lparr>a_components := a_components a @ [fn]\<rparr>)
      else (case isCustomHook (f_name fn) of
              Inl e \<Rightarrow> Inl e
            | Inr True \<Rightarrow> Inr (a\<lparr>a_hooks := a_hooks a @ [fn]\<rparr>)
            | Inr False \<Rightarrow> Inr (a\<lparr>a_functions := a_functions a @ [fn]\<rparr>)))"

definition visitCall :: "string option \<Rightarrow> analysis \<Rightarrow> analysis" where
  "visitCall callee a =
     (if callee = Some ''getServerSideProps''
        then a\<lparr>a_nextjsFeatures := a_nextjsFeatures a @ [''SSR'']\<rparr>
      else if callee = Some ''getStaticProps''
        then a\<lparr>a_nextjsFeatures := a_nextjsFeatures a @ [''SSG'']\<rparr>
      else if callee = Some ''getStaticPaths''
        then a\<lparr>a_nextjsFeatures := a_nextjsFeatures a @ [''Dynamic Routes'']\<rparr>
      else a)"

fun fullVisitor :: "string \<Rightarrow> node list \<Rightarrow> node \<Rightarrow> analysis \<Rightarrow> js_error + analysis" where
  "fullVisitor filePath anc (ImportDeclaration src) a =
     Inr (a\<lparr>a_imports := a_imports a @ [src]\<rparr>)"
| "fullVisitor filePath anc (ExportDefaultDeclaration d) a = Inr (visitExportDefault d a)"
| "fullVisitor filePath anc (ExportNamedDeclaration d specs) a =
     Inr (visitExportNamed d specs a)"
| "fullVisitor filePath anc (FunctionDeclaration i ps asy body) a =
     classifyDeclared filePath
       \<lparr>f_name = i, f_params = map getParamName ps, f_async = asy,
        f_isExported = isExported (FunctionDeclaration i ps asy body # anc)\<rparr> a"
| "fullVisitor filePath anc (ArrowFunctionExpression ps asy body) a =
     (case anc of
        VariableDeclarator (Some nm) ini # up \<Rightarrow>
          if nm = [] then Inr a
          else classifyArrow
                 \<lparr>f_name = Some nm, f_params = map getParamName ps, f_async = asy,
                  f_isExported = isExported (ArrowFunctionExpression ps asy body # anc)\<rparr> a
      | _ \<Rightarrow> Inr a)"
| "fullVisitor filePath anc (CallExpression callee sub) a = Inr (visitCall callee a)"
| "fullVisitor filePath anc n a = Inr a"

section \<open>The file system and the parser\<close>

text \<open>
  A directory listing is a list of entries in enumeration order. A file carries its name,
  its content (\<open>None\<close> when reading it fails) and its modification time; \<open>Locked\<close> is a
  directory whose listing fails. The walkers pair every path they return with the file
  found there, so that reading the path again needs no second lookup.
\<close>

datatype fs_entry =
    File string "string option" nat
  | Dir string "fs_entry list"
  | Locked string

type_synonym found = "string \<times> string option \<times> nat"

text \<open>\<open>parser.parse(code, {sourceType: 'module', plugins, errorRecovery})\<close>: the plugin
  list, the recovery flag and the text give the body of the program, or the parser throws
  (\<open>None\<close>).\<close>

type_synonym parser = "string list \<Rightarrow> bool \<Rightarrow> string \<Rightarrow> node list option"

definition pluginsFor :: "string \<Rightarrow> string list" where
  "pluginsFor filePath =
     (if endsWith filePath ''.ts'' \<or> endsWith filePath ''.tsx''
      then [''jsx'', ''typescript''] else [''jsx''])"

section \<open>Comprehensive generator: the index and \<open>analyzeFile\<close>\<close>

record module_summary =
  m_purpose :: string
  m_type :: string
  m_imports :: "string list"
  m_exports :: "string list"
  m_complexity :: nat
  m_nextjsFeatures :: "string list"
  m_lastModified :: nat

record signature_entry =
  s_name :: string
  s_signature :: string
  s_type :: string
  s_file :: string
  s_exported :: bool
  s_async :: bool

record dir_record =
  d_purpose :: string
  d_fileCount :: nat
  d_extensions :: "(string \<times> nat) list"
  d_lastModified :: nat
  d_type :: string

record route =
  r_path :: string
  r_file :: string
  r_type :: string

datatype json =
    JNull
  | JBool bool
  | JNum int
  | JStr string
  | JArr "json list"
  | JObj "(string \<times> json) list"

record full_index =
  generatedAt :: nat
  nextjsVersion :: string
  level1 :: "string \<rightharpoonup> dir_record"
  level2 :: "string \<rightharpoonup> module_summary"
  level3 :: "string \<rightharpoonup> signature_entry"
  level4 :: "(string \<times> json) list"
  arch_patterns :: "(string \<times> bool) list"
  routes_pages :: "route list option"
  routes_app :: "route list option"

definition namesOf :: "func list \<Rightarrow> string" where
  "namesOf fs = join '', '' (map (\<lambda>f. case f_name f of None \<Rightarrow> [] | Some s \<Rightarrow> s) fs)"

definition inferFilePurpose :: "string \<Rightarrow> analysis \<Rightarrow> string" where
  "inferFilePurpose filePath a =
     (let b = stem filePath
      in if b = ''layout'' then ''Layout component for route group''
         else if b = ''page'' then ''Page component for route''
         else if b = ''loading'' then ''Loading UI component''
         else if b = ''error'' then ''Error boundary component''
         else if b = ''not-found'' then ''Not found page component''
         else if str_includes filePath ''/api/'' then ''API route handler''
         else if a_components a \<noteq> [] then ''React component ('' @ namesOf (a_components a) @ '')''
         else if a_hooks a \<noteq> [] then ''Custom React hook ('' @ namesOf (a_hooks a) @ '')''
         else if a_functions a \<noteq> [] then ''Utility functions ('' @ namesOf (a_functions a) @ '')''
         else ''Source file'')"

definition classifyFileType :: "string \<Rightarrow> analysis \<Rightarrow> string" where
  "classifyFileType filePath a =
     (if str_includes filePath ''/api/'' then ''api-route''
      else if str_includes filePath ''/pages/'' then ''page''
      else if str_includes filePath ''/app/'' then ''app-route''
      else if a_components a \<noteq> [] then ''component''
      else if a_hooks a \<noteq> [] then ''hook''
      else if str_includes filePath ''/lib/'' \<or> str_includes filePath ''/utils/'' then ''utility''
      else if endsWith filePath ''.css'' \<or> endsWith filePath ''.scss'' then ''styles''
      else ''source'')"

definition calculateComplexity :: "analysis \<Rightarrow> nat" where
  "calculateComplexity a =
     length (a_functions a) + length (a_components a) + length (a_hooks a)
       + length (a_apiRoutes a)"

text \<open>\<open>classifyFunction(item, analysis)\<close> of the comprehensive generator looks the
  descriptor up in the lists it was pushed to.\<close>

definition classifyItem :: "func \<Rightarrow> analysis \<Rightarrow> string" where
  "classifyItem fn a =
     (if fn \<in> set (a_components a) then ''component''
      else if fn \<in> set (a_hooks a) then ''hook''
      else if fn \<in> set (a_apiRoutes a) then ''api-handler''
      else ''function'')"

definition signatureOf :: "string \<Rightarrow> analysis \<Rightarrow> string \<Rightarrow> func \<Rightarrow> signature_entry" where
  "signatureOf relativePath a nm fn =
     \<lparr>s_name = nm,
      s_signature = nm @ ''('' @ join '', '' (f_params fn) @ '')''
                       @ (if f_async fn then '': Promise'' else []),
      s_type = classifyItem fn a,
      s_file = relativePath,
      s_exported = f_isExported fn,
      s_async = f_async fn\<rparr>"

definition addSignatures ::
    "string \<Rightarrow> analysis \<Rightarrow> (string \<rightharpoonup> signature_entry) \<Rightarrow> (string \<rightharpoonup> signature_entry)" where
  "addSignatures relativePath a l3 =
     fold (\<lambda>fn m. case f_name fn of
                     None \<Rightarrow> m
                   | Some nm \<Rightarrow>
                       if nm = [] then m
                       else m(relativePath @ '':'' @ nm \<mapsto> signatureOf relativePath a nm fn))
          (a_functions a @ a_components a @ a_hooks a @ a_apiRoutes a) l3"

definition moduleSummary :: "string \<Rightarrow> nat \<Rightarrow> analysis \<Rightarrow> module_summary" where
  "moduleSummary relativePath mtime a =
     \<lparr>m_purpose = inferFilePurpose relativePath a,
      m_type = classifyFileType relativePath a,
      m_imports = a_imports a,
      m_exports = map fst (a_exports a),
      m_complexity = calculateComplexity a,
      m_nextjsFeatures = a_nextjsFeatures a,
      m_lastModified = mtime\<rparr>"

text \<open>\<open>analyzeFile\<close>: a failed read or a throwing visitor leaves through the exception
  (\<open>Inl\<close>), a parse error is logged and the index is returned as it was.\<close>

fun analyzeFile :: "parser \<Rightarrow> string \<Rightarrow> found \<Rightarrow> full_index \<Rightarrow> js_error + full_index" where
  "analyzeFile parse projectPath (filePath, content, mtime) idx =
     (case content of
        None \<Rightarrow> Inl IOError
      | Some code \<Rightarrow>
          (let relativePath = path_relative projectPath filePath
           in case parse (pluginsFor filePath) False code of
                None \<Rightarrow> Inr idx
              | Some body \<Rightarrow>
                  (case traverse_list (fullVisitor filePath) [] body empty_analysis of
                     Inl (e, partial) \<Rightarrow> Inl e
                   | Inr a \<Rightarrow>
                       Inr (idx\<lparr>level2 := (level2 idx)(relativePath \<mapsto>
                                             moduleSummary relativePath mtime a),
                                 level3 := addSignatures relativePath a (level3 idx)\<rparr>))))"

section \<open>Budget-aware generator: \<open>analyzeFileCompact\<close>\<close>

record compact_analysis =
  c_type :: string
  c_exports :: "string list"
  c_imports :: "string list"
  c_features :: "string list"

record export_info =
  x_name :: string
  x_type :: string
  x_params :: nat

definition classifyFile :: "string \<Rightarrow> string" where
  "classifyFile filePath =
     (if str_includes filePath ''/api/'' then ''api''
      else if str_includes filePath ''/pages/'' then ''page''
      else if str_includes filePath ''/app/'' \<and> str_includes filePath ''/page.'' then ''page''
      else if str_includes filePath ''/app/'' \<and> str_includes filePath ''/layout.'' then ''layout''
      else if str_includes filePath ''/components/'' then ''component''
      else if str_includes filePath ''/hooks/'' then ''hook''
      else if str_includes filePath ''/lib/'' \<or> str_includes filePath ''/utils/'' then ''util''
      else ''source'')"

text \<open>The visitors of the budget-aware generator write into the per-file analysis and,
  for exported function declarations, into the \<open>exports\<close> map of the index.\<close>

type_synonym compact_acc = "compact_analysis \<times> (string \<rightharpoonup> export_info)"

definition compactCall :: "string option \<Rightarrow> compact_analysis \<Rightarrow> compact_analysis" where
  "compactCall callee a =
     (let a1 = (if callee = Some ''getServerSideProps''
                then a\<lparr>c_features := c_features a @ [''SSR'']\<rparr> else a);
          a2 = (if callee = Some ''getStaticProps''
                then a1\<lparr>c_features := c_features a1 @ [''SSG'']\<rparr> else a1)
      in if callee = Some ''getStaticPaths''
         then a2\<lparr>c_features := c_features a2 @ [''ISR'']\<rparr> else a2)"

fun compactVisitor :: "string \<Rightarrow> node list \<Rightarrow> node \<Rightarrow> compact_acc \<Rightarrow> js_error + compact_acc" where
  "compactVisitor relativePath anc (ImportDeclaration src) (a, ex) =
     (if \<not> startsWith src ''.'' \<and> \<not> startsWith src ''/''
      then Inr (a\<lparr>c_imports := c_imports a @ [src]\<rparr>, ex) else Inr (a, ex))"
| "compactVisitor relativePath anc (ExportDefaultDeclaration d) (a, ex) =
     Inr (a\<lparr>c_exports := c_exports a @ [getExportName d]\<rparr>, ex)"
| "compactVisitor relativePath anc (ExportNamedDeclaration d specs) (a, ex) =
     Inr (a\<lparr>c_exports := c_exports a @ specs\<rparr>, ex)"
| "compactVisitor relativePath anc (FunctionDeclaration i ps asy body) (a, ex) =
     (case i of
        None \<Rightarrow> Inr (a, ex)
      | Some nm \<Rightarrow>
          if nm \<noteq> [] \<and> isExported (FunctionDeclaration i ps asy body # anc)
          then (case classifyFunction (Some nm) of
                  Inl e \<Rightarrow> Inl e
                | Inr ty \<Rightarrow>
                    Inr (a, ex(relativePath @ '':'' @ nm \<mapsto>
                                 \<lparr>x_name = nm, x_type = ty, x_params = length ps\<rparr>)))
          else Inr (a, ex))"
| "compactVisitor relativePath anc (CallExpression callee sub) (a, ex) =
     Inr (compactCall callee a, ex)"
| "compactVisitor relativePath anc n (a, ex) = Inr (a, ex)"

text \<open>\<open>[...new Set(xs)]\<close>: the distinct elements in order of first occurrence.\<close>

definition uniq :: "'a list \<Rightarrow> 'a list" where
  "uniq xs = rev (remdups (rev xs))"

text \<open>The generator state of the budget-aware variant: the index under construction and
  the running token estimate. \<open>JSON.stringify(obj).length / 3\<close> is taken in exact
  arithmetic; the length of the serialised analysis is a parameter.\<close>

record dir_info =
  i_files :: nat
  i_types :: "(string \<times> nat) list"
  i_purpose :: string

record pattern_facts =
  p_router :: string
  p_typescript :: bool
  p_tailwind :: bool
  p_testing :: bool
  p_stateManagement :: string
  p_styling :: string
  p_dataFetching :: string

record compact_gen =
  g_generated :: nat
  g_framework :: string
  g_structure :: "string \<rightharpoonup> dir_info"
  g_modules :: "string \<rightharpoonup> compact_analysis"
  g_exports :: "string \<rightharpoonup> export_info"
  g_patterns :: "pattern_facts option"
  currentTokens :: rat

definition maxTokens :: rat where
  "maxTokens = 35000"

definition estimateTokens :: "(compact_analysis \<Rightarrow> nat) \<Rightarrow> compact_analysis \<Rightarrow> rat" where
  "estimateTokens stringifyLength a = of_nat (stringifyLength a) / 3"

text \<open>\<open>traverse(ast, visitors)\<close> of the library does more than call the visitors: when it
  sets up the path of the program, before the first visitor runs, it builds the scopes of
  the whole tree and registers every declaration, and it throws a TypeError
  (\<open>Duplicate declaration\<close>) when two of them collide. The strict parser rejects such a text
  itself. The recovering parser (\<open>errorRecovery: true\<close>) notes the error and returns the
  tree, so the budget-aware generator, which parses that way and calls \<open>traverse\<close> outside
  any \<open>try\<close>, can meet the exception. The tree of the model keeps only what the visitors
  read, which does not decide the collision; what the scope building throws on the tree
  that the recovering parser returns for a text, under the given plugins, is therefore a
  parameter. \<open>None\<close>: it throws nothing and the visitors run.\<close>

type_synonym crawler = "string list \<Rightarrow> string \<Rightarrow> js_error option"

text \<open>The result of one call: it threw, it returned \<open>null\<close>, or it returned an analysis.
  When the scope building throws, no visitor has run: nothing has been written to the
  \<open>exports\<close> map and nothing is added to the token estimate.\<close>

fun analyzeFileCompact ::
    "parser \<Rightarrow> crawler \<Rightarrow> (compact_analysis \<Rightarrow> nat) \<Rightarrow> string \<Rightarrow> found \<Rightarrow> compact_gen
       \<Rightarrow> (js_error + compact_analysis option) \<times> compact_gen" where
  "analyzeFileCompact parse crawl stringifyLength projectPath (filePath, content, mtime) g =
     (case content of
        None \<Rightarrow> (Inl IOError, g)
      | Some code \<Rightarrow>
          if 10000 < length code then (Inr None, g)
          else
            (let relativePath = path_relative projectPath filePath
             in case parse (pluginsFor filePath) True code of
                  None \<Rightarrow> (Inr None, g)
                | Some body \<Rightarrow>
                    (case crawl (pluginsFor filePath) code of
                       Some e \<Rightarrow> (Inl e, g)
                     | None \<Rightarrow>
                    (case traverse_list (compactVisitor relativePath) [] body
                            (\<lparr>c_type = classifyFile relativePath, c_exports = [],
                              c_imports = [], c_features = []\<rparr>, g_exports g) of
                       Inl (e, (partial, ex)) \<Rightarrow> (Inl e, g\<lparr>g_exports := ex\<rparr>)
                     | Inr (a, ex) \<Rightarrow>
                         (let a' = a\<lparr>c_imports := take 10 (uniq (c_imports a)),
                                     c_exports := take 10 (c_exports a)\<rparr>
                          in (Inr (Some a'),
                              g\<lparr>g_exports := ex,
                                currentTokens := currentTokens g
                                   + estimateTokens stringifyLength a'\<rparr>))))))"

section \<open>Projects\<close>

text \<open>\<open>package.json\<close> as far as it is read: the three dependency tables, each possibly
  absent. A project is its resolved path, the listing of its directory and its manifest
  (\<open>None\<close> when it cannot be read or parsed).\<close>

record package_json =
  dependencies :: "(string \<rightharpoonup> string) option"
  devDependencies :: "(string \<rightharpoonup> string) option"
  peerDependencies :: "(string \<rightharpoonup> string) option"

record project =
  projectPath :: string
  tree :: "fs_entry list"
  packageFile :: "package_json option"

definition loadPackageJson :: "project \<Rightarrow> package_json" where
  "loadPackageJson proj =
     (case packageFile proj of
        None \<Rightarrow> \<lparr>dependencies = Some Map.empty, devDependencies = Some Map.empty,
                 peerDependencies = None\<rparr>
      | Some pj \<Rightarrow> pj)"

text \<open>\<open>table?.[name]\<close>.\<close>

definition depLookup :: "(string \<rightharpoonup> string) option \<Rightarrow> string \<Rightarrow> string option" where
  "depLookup table name = (case table of None \<Rightarrow> None | Some m \<Rightarrow> m name)"

fun entry_name :: "fs_entry \<Rightarrow> string" where
  "entry_name (File n c m) = n"
| "entry_name (Dir n sub) = n"
| "entry_name (Locked n) = n"

fun split_on :: "char \<Rightarrow> string \<Rightarrow> string list" where
  "split_on c [] = [[]]"
| "split_on c (x # xs) =
     (if x = c then [] # split_on c xs
      else (case split_on c xs of [] \<Rightarrow> [[x]] | h # t \<Rightarrow> (x # h) # t))"

text \<open>The entry a relative path leads to, component by component.\<close>

fun lookup :: "fs_entry list \<Rightarrow> string list \<Rightarrow> fs_entry option" where
  "lookup es [] = None"
| "lookup es [n] = find (\<lambda>e. entry_name e = n) es"
| "lookup es (n # m # ms) =
     (case find (\<lambda>e. entry_name e = n) es of
        Some (Dir d sub) \<Rightarrow> lookup sub (m # ms)
      | _ \<Rightarrow> None)"

definition existsSync :: "project \<Rightarrow> string \<Rightarrow> bool" where
  "existsSync proj rel = (lookup (tree proj) (split_on CHR ''/'' rel) \<noteq> None)"

text \<open>What \<open>readdirSync\<close> lists at an existing entry; for a file or a locked directory it
  throws, and every caller treats that as an empty listing.\<close>

fun listing :: "fs_entry \<Rightarrow> fs_entry list" where
  "listing (Dir n sub) = sub"
| "listing e = []"

definition hiddenOrModules :: "string \<Rightarrow> bool" where
  "hiddenOrModules name = (startsWith name ''.'' \<or> name = ''node_modules'')"

section \<open>Budget-aware generator: the run\<close>

definition isRelevantFile :: "string \<Rightarrow> bool" where
  "isRelevantFile filename =
     (endsWith filename ''.js'' \<or> endsWith filename ''.jsx'' \<or> endsWith filename ''.ts''
      \<or> endsWith filename ''.tsx'')"

fun getRelevantFiles :: "string \<Rightarrow> fs_entry list \<Rightarrow> found list" where
  "getRelevantFiles dir [] = []"
| "getRelevantFiles dir (File n c m # es) =
     (if hiddenOrModules n then []
      else if isRelevantFile n then [(path_join dir n, c, m)] else [])
     @ getRelevantFiles dir es"
| "getRelevantFiles dir (Dir n sub # es) =
     (if hiddenOrModules n then [] else getRelevantFiles (path_join dir n) sub)
     @ getRelevantFiles dir es"
| "getRelevantFiles dir (Locked n # es) = getRelevantFiles dir es"

fun bump :: "string \<Rightarrow> (string \<times> nat) list \<Rightarrow> (string \<times> nat) list" where
  "bump k [] = [(k, 1)]"
| "bump k ((k', n) # h) = (if k = k' then (k', n + 1) # h else (k', n) # bump k h)"

definition inferPurpose :: "string \<Rightarrow> string" where
  "inferPurpose dirName =
     (if dirName = ''app'' then ''App Router pages and layouts''
      else if dirName = ''pages'' then ''Pages Router routes''
      else if dirName = ''components'' then ''Reusable UI components''
      else if dirName = ''lib'' then ''Utility libraries''
      else if dirName = ''utils'' then ''Helper functions''
      else if dirName = ''hooks'' then ''Custom React hooks''
      else if dirName = ''api'' then ''API route handlers''
      else ''Source files'')"

definition analyzeDirCompact :: "string \<Rightarrow> fs_entry \<Rightarrow> dir_info" where
  "analyzeDirCompact dirPath e =
     (let files = getRelevantFiles dirPath (listing e)
      in \<lparr>i_files = length files,
          i_types = fold (\<lambda>(file, c, m) h. bump (extname file) h) files [],
          i_purpose = inferPurpose (basename dirPath)\<rparr>)"

definition criticalDirs :: "string list" where
  "criticalDirs =
     [''app'', ''src/app'', ''pages'', ''src/pages'', ''components'', ''src/components'',
      ''lib'', ''src/lib'', ''utils'', ''src/utils'', ''hooks'', ''src/hooks'']"

definition analyzeProject :: "project \<Rightarrow> compact_gen \<Rightarrow> compact_gen" where
  "analyzeProject proj g =
     fold (\<lambda>dir acc.
             case lookup (tree proj) (split_on CHR ''/'' dir) of
               None \<Rightarrow> acc
             | Some e \<Rightarrow>
                 (let info = analyzeDirCompact (path_join (projectPath proj) dir) e
                  in if 0 < i_files info
                     then acc\<lparr>g_structure := (g_structure acc)(dir \<mapsto> info)\<rparr> else acc))
          criticalDirs g"

definition sourceFiles :: "project \<Rightarrow> found list" where
  "sourceFiles proj =
     take 50 (filter (\<lambda>(file, c, m).
                 \<not> str_includes file ''node_modules'' \<and> \<not> str_includes file ''.next''
                 \<and> \<not> str_includes file ''dist/'')
               (getRelevantFiles (projectPath proj) (tree proj)))"

text \<open>The loop of \<open>analyzeKeyFiles\<close>: the budget test comes first and leaves the loop; a
  call that throws or returns \<open>null\<close> adds no record.\<close>

fun analyzeLoop ::
    "parser \<Rightarrow> crawler \<Rightarrow> (compact_analysis \<Rightarrow> nat) \<Rightarrow> string \<Rightarrow> found list \<Rightarrow> compact_gen \<Rightarrow> compact_gen" where
  "analyzeLoop parse crawl stringifyLength base [] g = g"
| "analyzeLoop parse crawl stringifyLength base (file # rest) g =
     (if currentTokens g > maxTokens * (8 / 10) then g
      else (case analyzeFileCompact parse crawl stringifyLength base file g of
              (Inr (Some analysis), g') \<Rightarrow>
                analyzeLoop parse crawl stringifyLength base rest
                  (g'\<lparr>g_modules := (g_modules g')(path_relative base (fst file) \<mapsto> analysis)\<rparr>)
            | (other, g') \<Rightarrow> analyzeLoop parse crawl stringifyLength base rest g'))"

definition analyzeKeyFiles ::
    "parser \<Rightarrow> crawler \<Rightarrow> (compact_analysis \<Rightarrow> nat) \<Rightarrow> project \<Rightarrow> compact_gen \<Rightarrow> compact_gen" where
  "analyzeKeyFiles parse crawl stringifyLength proj g =
     analyzeLoop parse crawl stringifyLength (projectPath proj) (sourceFiles proj) g"

definition hasPackage :: "package_json \<Rightarrow> string \<Rightarrow> bool" where
  "hasPackage pj name =
     (truthy (depLookup (dependencies pj) name) \<or> truthy (depLookup (devDependencies pj) name))"

definition detectRouter :: "project \<Rightarrow> string" where
  "detectRouter proj =
     (if existsSync proj ''app'' then ''app''
      else if existsSync proj ''src/app'' then ''app''
      else if existsSync proj ''pages'' then ''pages''
      else if existsSync proj ''src/pages'' then ''pages''
      else ''unknown'')"

definition detectStateManagement :: "package_json \<Rightarrow> string" where
  "detectStateManagement pj =
     (if hasPackage pj ''zustand'' then ''zustand''
      else if hasPackage pj ''@reduxjs/toolkit'' then ''redux-toolkit''
      else if hasPackage pj ''redux'' then ''redux''
      else if hasPackage pj ''jotai'' then ''jotai''
      else ''context'')"

definition detectStyling :: "package_json \<Rightarrow> string" where
  "detectStyling pj =
     (if hasPackage pj ''tailwindcss'' then ''tailwind''
      else if hasPackage pj ''styled-components'' then ''styled-components''
      else if hasPackage pj ''@emotion/react'' then ''emotion''
      else if hasPackage pj ''@mui/material'' then ''mui''
      else ''css'')"

definition detectDataFetching :: "package_json \<Rightarrow> string" where
  "detectDataFetching pj =
     (if hasPackage pj ''@tanstack/react-query'' then ''tanstack-query''
      else if hasPackage pj ''react-query'' then ''react-query''
      else if hasPackage pj ''swr'' then ''swr''
      else if hasPackage pj ''apollo-client'' then ''apollo''
      else ''fetch'')"

definition patternFacts :: "project \<Rightarrow> pattern_facts" where
  "patternFacts proj =
     (let pj = loadPackageJson proj
      in \<lparr>p_router = detectRouter proj,
          p_typescript = existsSync proj ''tsconfig.json'',
          p_tailwind = hasPackage pj ''tailwindcss'',
          p_testing = (hasPackage pj ''jest'' \<or> hasPackage pj ''@testing-library/react''),
          p_stateManagement = detectStateManagement pj,
          p_styling = detectStyling pj,
          p_dataFetching = detectDataFetching pj\<rparr>)"

definition detectPatterns :: "project \<Rightarrow> compact_gen \<Rightarrow> compact_gen" where
  "detectPatterns proj g = g\<lparr>g_patterns := Some (patternFacts proj)\<rparr>"

text \<open>\<open>{...dependencies, ...devDependencies}\<close>, then the first of \<open>next\<close> and \<open>react\<close>
  with a truthy version.\<close>

definition detectFramework :: "package_json \<Rightarrow> string" where
  "detectFramework pj =
     (let deps = (case dependencies pj of None \<Rightarrow> Map.empty | Some m \<Rightarrow> m)
                 ++ (case devDependencies pj of None \<Rightarrow> Map.empty | Some m \<Rightarrow> m)
      in case deps ''next'' of
           Some v \<Rightarrow>
             if v \<noteq> [] then ''Next.js '' @ v
             else (case deps ''react'' of
                     Some w \<Rightarrow> if w \<noteq> [] then ''React '' @ w else ''JavaScript''
                   | None \<Rightarrow> ''JavaScript'')
         | None \<Rightarrow>
             (case deps ''react'' of
                Some w \<Rightarrow> if w \<noteq> [] then ''React '' @ w else ''JavaScript''
              | None \<Rightarrow> ''JavaScript''))"

definition newCompactGen :: "nat \<Rightarrow> project \<Rightarrow> compact_gen" where
  "newCompactGen now proj =
     \<lparr>g_generated = now, g_framework = detectFramework (loadPackageJson proj),
      g_structure = Map.empty, g_modules = Map.empty, g_exports = Map.empty,
      g_patterns = None, currentTokens = 0\<rparr>"

text \<open>\<open>new CompactCodeIndexGenerator(projectPath).generate()\<close>. The clock is read once.
  \<open>generateCompact\<close> is the document of the run: the index on which \<open>saveIndex\<close> is called
  and which it serialises into \<open>code-index.json\<close> and \<open>code-index.md\<close>. The two writes
  themselves are not modelled for this variant; every statement about \<open>generateCompact\<close> is
  about the document, whether or not the disk takes it.\<close>

definition generateCompact ::
    "parser \<Rightarrow> crawler \<Rightarrow> (compact_analysis \<Rightarrow> nat) \<Rightarrow> nat \<Rightarrow> project \<Rightarrow> compact_gen" where
  "generateCompact parse crawl stringifyLength now proj =
     detectPatterns proj
       (analyzeKeyFiles parse crawl stringifyLength proj
          (analyzeProject proj (newCompactGen now proj)))"

section \<open>Comprehensive generator: the run\<close>

definition isRelevantFileFull :: "string \<Rightarrow> bool" where
  "isRelevantFileFull filename =
     list_ex (endsWith filename)
       [''.js'', ''.jsx'', ''.ts'', ''.tsx'', ''.json'', ''.css'', ''.scss'', ''.module.css'']"

text \<open>Here only directories are tested for a leading dot; a hidden directory is neither
  entered nor a file.\<close>

fun getFilesRecursively :: "string \<Rightarrow> fs_entry list \<Rightarrow> found list" where
  "getFilesRecursively dir [] = []"
| "getFilesRecursively dir (File n c m # es) =
     (if isRelevantFileFull n then [(path_join dir n, c, m)] else [])
     @ getFilesRecursively dir es"
| "getFilesRecursively dir (Dir n sub # es) =
     (if hiddenOrModules n then [] else getFilesRecursively (path_join dir n) sub)
     @ getFilesRecursively dir es"
| "getFilesRecursively dir (Locked n # es) = getFilesRecursively dir es"

text \<open>\<open>getAllDirsRecursively\<close>: the directory itself and every directory below it that is
  neither hidden nor \<open>node_modules\<close>, each with its listing as far as it can be read.\<close>

fun subDirs :: "string \<Rightarrow> fs_entry list \<Rightarrow> (string \<times> fs_entry list) list" where
  "subDirs dir [] = []"
| "subDirs dir (File n c m # es) = subDirs dir es"
| "subDirs dir (Dir n sub # es) =
     (if hiddenOrModules n then []
      else (path_join dir n, sub) # subDirs (path_join dir n) sub)
     @ subDirs dir es"
| "subDirs dir (Locked n # es) =
     (if hiddenOrModules n then [] else [(path_join dir n, [])]) @ subDirs dir es"

definition getAllDirsRecursively :: "string \<Rightarrow> fs_entry \<Rightarrow> (string \<times> fs_entry list) list" where
  "getAllDirsRecursively dir e = (dir, listing e) # subDirs dir (listing e)"

definition getLastModified :: "nat \<Rightarrow> found list \<Rightarrow> nat" where
  "getLastModified now files =
     (if files = [] then now else fold (\<lambda>(file, c, m) acc. max m acc) files 0)"

text \<open>The two tables of folder names are read as tables of their own entries: a folder
  named like a property that every object inherits (such as \<open>constructor\<close>) is not
  modelled.\<close>

definition inferFolderPurpose :: "string \<Rightarrow> string" where
  "inferFolderPurpose folderName =
     (if folderName = ''pages'' then ''Next.js Pages Router - file-based routing''
      else if folderName = ''app'' then ''Next.js App Router - modern routing with layouts''
      else if folderName = ''components'' then ''Reusable React components''
      else if folderName = ''lib'' then ''Library functions and utilities''
      else if folderName = ''utils'' then ''Helper functions and utilities''
      else if folderName = ''hooks'' then ''Custom React hooks''
      else if folderName = ''styles'' then ''CSS and styling files''
      else if folderName = ''public'' then ''Static assets served at root''
      else if folderName = ''api'' then ''API route handlers''
      else if folderName = ''src'' then ''Main source code directory''
      else ''Source code directory'')"

definition classifyDirectoryType :: "string \<Rightarrow> string" where
  "classifyDirectoryType dirName =
     (if dirName = ''pages'' then ''routing''
      else if dirName = ''app'' then ''routing''
      else if dirName = ''components'' then ''ui''
      else if dirName = ''lib'' then ''utility''
      else if dirName = ''utils'' then ''utility''
      else if dirName = ''hooks'' then ''logic''
      else if dirName = ''styles'' then ''styling''
      else if dirName = ''public'' then ''static''
      else if dirName = ''api'' then ''backend''
      else ''source'')"

definition dirRecord :: "nat \<Rightarrow> string \<Rightarrow> fs_entry list \<Rightarrow> dir_record" where
  "dirRecord now dirPath sub =
     (let files = getFilesRecursively dirPath sub
      in \<lparr>d_purpose = inferFolderPurpose (basename dirPath),
          d_fileCount = length files,
          d_extensions = fold (\<lambda>(file, c, m) h. bump (extname file) h) files [],
          d_lastModified = getLastModified now files,
          d_type = classifyDirectoryType (basename dirPath)\<rparr>)"

definition nextjsDirectories :: "string list" where
  "nextjsDirectories =
     [''pages'', ''app'', ''src/pages'', ''src/app'', ''components'', ''src/components'',
      ''lib'', ''src/lib'', ''utils'', ''src/utils'', ''hooks'', ''src/hooks'',
      ''styles'', ''src/styles'', ''public'',
      ''api'', ''src/api'', ''pages/api'', ''src/pages/api'', ''app/api'', ''src/app/api'']"

text \<open>\<open>generateLevel1\<close>: the state of the two loops is the \<open>visited\<close> set and the map
  under construction.\<close>

definition visitDir ::
    "nat \<Rightarrow> string \<Rightarrow> string \<times> fs_entry list
       \<Rightarrow> string set \<times> (string \<rightharpoonup> dir_record) \<Rightarrow> string set \<times> (string \<rightharpoonup> dir_record)" where
  "visitDir now base d acc =
     (case (d, acc) of
        ((dirPath, sub), (visited, l1)) \<Rightarrow>
          (let relPath = path_relative base dirPath
           in if relPath \<in> visited then (visited, l1)
              else (insert relPath visited, l1(relPath \<mapsto> dirRecord now dirPath sub))))"

definition generateLevel1 :: "nat \<Rightarrow> project \<Rightarrow> full_index \<Rightarrow> full_index" where
  "generateLevel1 now proj idx =
     idx\<lparr>level1 := snd (fold (\<lambda>baseDir acc.
               case lookup (tree proj) (split_on CHR ''/'' baseDir) of
                 None \<Rightarrow> acc
               | Some e \<Rightarrow>
                   fold (visitDir now (projectPath proj))
                        (getAllDirsRecursively (path_join (projectPath proj) baseDir) e) acc)
             nextjsDirectories ({}, level1 idx))\<rparr>"

definition sourceFilesFull :: "project \<Rightarrow> found list" where
  "sourceFilesFull proj =
     filter (\<lambda>(file, c, m).
               extname file \<in> set [''.js'', ''.jsx'', ''.ts'', ''.tsx'']
               \<and> \<not> str_includes file ''node_modules'' \<and> \<not> str_includes file ''.next'')
            (getFilesRecursively (projectPath proj) (tree proj))"

text \<open>The loop of \<open>analyzeSourceFiles\<close>: an exception of \<open>analyzeFile\<close> is caught, logged,
  and the next file is taken.\<close>

fun analyzeAll :: "parser \<Rightarrow> string \<Rightarrow> found list \<Rightarrow> full_index \<Rightarrow> full_index" where
  "analyzeAll parse base [] idx = idx"
| "analyzeAll parse base (file # rest) idx =
     (case analyzeFile parse base file idx of
        Inl e \<Rightarrow> analyzeAll parse base rest idx
      | Inr idx' \<Rightarrow> analyzeAll parse base rest idx')"

definition analyzeSourceFiles :: "parser \<Rightarrow> project \<Rightarrow> full_index \<Rightarrow> full_index" where
  "analyzeSourceFiles parse proj idx =
     analyzeAll parse (projectPath proj) (sourceFilesFull proj) idx"

definition hasPackageFull :: "package_json \<Rightarrow> string \<Rightarrow> bool" where
  "hasPackageFull pj name =
     (truthy (depLookup (dependencies pj) name) \<or> truthy (depLookup (devDependencies pj) name)
      \<or> truthy (depLookup (peerDependencies pj) name))"

definition scriptExts :: "string list" where
  "scriptExts = [''.js'', ''.jsx'', ''.ts'', ''.tsx'']"

definition routerDirHas :: "project \<Rightarrow> (string \<Rightarrow> bool) \<Rightarrow> string \<Rightarrow> bool" where
  "routerDirHas proj ok dir =
     (case lookup (tree proj) (split_on CHR ''/'' dir) of
        None \<Rightarrow> False
      | Some e \<Rightarrow>
          list_ex (\<lambda>(file, c, m). ok (stem file) \<and> extname file \<in> set scriptExts)
            (getFilesRecursively (path_join (projectPath proj) dir) (listing e)))"

definition detectPagesRouter :: "project \<Rightarrow> bool" where
  "detectPagesRouter proj =
     list_ex (routerDirHas proj (\<lambda>b. \<not> startsWith b ''_'')) [''pages'', ''src/pages'']"

definition detectAppRouter :: "project \<Rightarrow> bool" where
  "detectAppRouter proj =
     list_ex (routerDirHas proj
                (\<lambda>b. b \<in> set [''page'', ''layout'', ''loading'', ''error'', ''not-found'',
                                ''template'']))
       [''app'', ''src/app'']"

definition detectTypeScript :: "project \<Rightarrow> bool" where
  "detectTypeScript proj =
     (existsSync proj ''tsconfig.json'' \<or> existsSync proj ''next-env.d.ts''
      \<or> hasPackageFull (loadPackageJson proj) ''typescript''
      \<or> hasPackageFull (loadPackageJson proj) ''@types/node'')"

definition detectTailwind :: "project \<Rightarrow> bool" where
  "detectTailwind proj =
     (list_ex (existsSync proj)
        [''tailwind.config.js'', ''tailwind.config.ts'', ''tailwind.config.mjs'',
         ''tailwind.config.cjs'']
      \<or> hasPackageFull (loadPackageJson proj) ''tailwindcss''
      \<or> list_ex (\<lambda>(file, c, m).
                   extname file \<in> set [''.css'', ''.scss'', ''.sass'']
                   \<and> (case c of
                        None \<Rightarrow> False
                      | Some content \<Rightarrow>
                          str_includes content ''@tailwind''
                          \<or> str_includes content ''tailwindcss''))
           (getFilesRecursively (projectPath proj) (tree proj)))"

definition analyzeArchitecturalPatterns :: "project \<Rightarrow> full_index \<Rightarrow> full_index" where
  "analyzeArchitecturalPatterns proj idx =
     (let pj = loadPackageJson proj
      in idx\<lparr>arch_patterns :=
           [(''pages-router'', detectPagesRouter proj),
            (''app-router'', detectAppRouter proj),
            (''src-directory'', existsSync proj ''src''),
            (''typescript'', detectTypeScript proj),
            (''tailwind'', detectTailwind proj),
            (''styled-components'', hasPackageFull pj ''styled-components''),
            (''emotion'', hasPackageFull pj ''@emotion/react'' \<or> hasPackageFull pj ''@emotion/styled''),
            (''mui'', hasPackageFull pj ''@mui/material'' \<or> hasPackageFull pj ''@material-ui/core''),
            (''prisma'', hasPackageFull pj ''prisma'' \<or> hasPackageFull pj ''@prisma/client''),
            (''trpc'', hasPackageFull pj ''@trpc/server'' \<or> hasPackageFull pj ''@trpc/client''),
            (''next-auth'', hasPackageFull pj ''next-auth'' \<or> hasPackageFull pj ''@auth/nextjs'')]\<rparr>)"

subsection \<open>Routes\<close>

text \<open>\<open>filePath.replace(/\.(js|jsx|ts|tsx)$/, '')\<close>.\<close>

definition stripScriptExt :: "string \<Rightarrow> string" where
  "stripScriptExt p =
     (if endsWith p ''.js'' then take (length p - 3) p
      else if endsWith p ''.jsx'' then take (length p - 4) p
      else if endsWith p ''.ts'' then take (length p - 3) p
      else if endsWith p ''.tsx'' then take (length p - 4) p
      else p)"

text \<open>\<open>route.replace(/\[([^\]]+)\]/g, ':$1')\<close>: scanning from the left, an opening bracket
  followed by at least one character other than a closing bracket and then a closing
  bracket becomes a colon and the characters in between.\<close>

function dynamicSegments :: "string \<Rightarrow> string" where
  "dynamicSegments [] = []"
| "dynamicSegments (c # cs) =
     (let inner = takeWhile (\<lambda>x. x \<noteq> CHR '']'') cs;
          rest = dropWhile (\<lambda>x. x \<noteq> CHR '']'') cs
      in if c = CHR ''['' \<and> inner \<noteq> [] \<and> rest \<noteq> []
         then CHR '':'' # inner @ dynamicSegments (tl rest)
         else c # dynamicSegments cs)"
  by pat_completeness auto
termination
proof (relation "measure length")
  show "wf (measure (length :: string \<Rightarrow> nat))"
    by simp
next
  fix c :: char and cs inner rest :: string
  assume r: "rest = dropWhile (\<lambda>x. x \<noteq> CHR '']'') cs"
    and ne: "c = CHR ''['' \<and> inner \<noteq> [] \<and> rest \<noteq> []"
  have "length (tl rest) < length rest"
    using ne by (cases rest) simp_all
  moreover have "length rest \<le> length cs"
    unfolding r by (rule length_dropWhile_le)
  ultimately show "(tl rest, c # cs) \<in> measure length"
    by simp
qed simp

definition withLeadingSlash :: "string \<Rightarrow> string" where
  "withLeadingSlash r = (if startsWith r ''/'' then r else ''/'' @ r)"

definition filePathToRoute :: "string \<Rightarrow> string \<Rightarrow> string option" where
  "filePathToRoute filePath routerType =
     (let route = stripScriptExt filePath
      in if routerType = ''pages'' then
           (if route = ''index'' then Some ''/''
            else (let route1 = (if endsWith route ''/index''
                                then replace_first route ''/index'' [] else route)
                  in if startsWith route1 ''_'' \<or> str_includes route1 ''/_'' then None
                     else Some (withLeadingSlash (dynamicSegments route1))))
         else if routerType = ''app'' then
           (let route1 = (if endsWith route ''/page''
                          then replace_first route ''/page'' [] else route)
            in if route1 = ''page'' then Some ''/''
               else if \<not> str_includes filePath ''/page.'' \<and> \<not> str_includes filePath ''/layout.''
                       \<and> \<not> str_includes filePath ''/loading.''
                       \<and> \<not> str_includes filePath ''/error.'' then None
               else Some (withLeadingSlash (dynamicSegments route1)))
         else Some (withLeadingSlash (dynamicSegments route)))"

definition getRouteType :: "string \<Rightarrow> string" where
  "getRouteType filePath =
     (let b = stem filePath
      in if b = ''layout'' then ''layout''
         else if b = ''loading'' then ''loading''
         else if b = ''error'' then ''error''
         else if b = ''not-found'' then ''not-found''
         else if b = ''page'' then ''page''
         else if str_includes filePath ''/api/'' then ''api''
         else ''page'')"

definition extractRoutes :: "string \<Rightarrow> fs_entry list \<Rightarrow> string \<Rightarrow> route list" where
  "extractRoutes dir sub routerType =
     concat (map (\<lambda>(file, c, m).
                    let relativePath = path_relative dir file
                    in case filePathToRoute relativePath routerType of
                         None \<Rightarrow> []
                       | Some r \<Rightarrow>
                           if r = [] then []
                           else [\<lparr>r_path = r, r_file = relativePath,
                                  r_type = getRouteType file\<rparr>])
                 (getFilesRecursively dir sub))"

definition routesFor :: "project \<Rightarrow> string \<Rightarrow> route list option" where
  "routesFor proj routerType =
     (case lookup (tree proj) [routerType] of
        Some e \<Rightarrow>
          Some (extractRoutes (path_join (projectPath proj) routerType) (listing e) routerType)
      | None \<Rightarrow>
          (case lookup (tree proj) [''src'', routerType] of
             Some e \<Rightarrow>
               Some (extractRoutes (path_join (projectPath proj) (''src/'' @ routerType))
                       (listing e) routerType)
           | None \<Rightarrow> None))"

definition analyzeRoutes :: "project \<Rightarrow> full_index \<Rightarrow> full_index" where
  "analyzeRoutes proj idx =
     idx\<lparr>routes_pages := routesFor proj ''pages'', routes_app := routesFor proj ''app''\<rparr>"

subsection \<open>Saving: the deep-detail map of the previous output\<close>

text \<open>What is found at \<open>codebase-index.json\<close> before the new document is written: nothing,
  something that cannot be read or parsed, or a parsed document. \<open>JSON.parse\<close> is a
  parameter; it yields objects with distinct keys.\<close>

datatype prior_output = NoFile | Unusable | Parsed json

definition readPrior :: "(string \<Rightarrow> json option) \<Rightarrow> project \<Rightarrow> prior_output" where
  "readPrior jsonParse proj =
     (case lookup (tree proj) [''codebase-index.json''] of
        None \<Rightarrow> NoFile
      | Some (File n (Some text) m) \<Rightarrow>
          (case jsonParse text of None \<Rightarrow> Unusable | Some j \<Rightarrow> Parsed j)
      | Some other \<Rightarrow> Unusable)"

function showNat :: "nat \<Rightarrow> string" where
  "showNat n =
     (if n < 10 then [''0123456789'' ! n]
      else showNat (n div 10) @ [''0123456789'' ! (n mod 10)])"
  by pat_completeness auto
termination
  by (relation "measure id") auto

text \<open>\<open>prev.level4 && typeof prev.level4 === 'object'\<close>: an object is taken as it is, an
  array spreads to its indices; reading \<open>level4\<close> of \<open>null\<close> throws inside the \<open>try\<close>;
  every other value has no such property.\<close>

definition previousLevel4 :: "prior_output \<Rightarrow> (string \<times> json) list" where
  "previousLevel4 prior =
     (case prior of
        Parsed (JObj kvs) \<Rightarrow>
          (case map_of kvs ''level4'' of
             Some (JObj m) \<Rightarrow> m
           | Some (JArr xs) \<Rightarrow> zip (map showNat [0..<length xs]) xs
           | _ \<Rightarrow> [])
      | _ \<Rightarrow> [])"

text \<open>\<open>{...a, ...b}\<close>: the keys of \<open>a\<close> in their order, each with the value of \<open>b\<close> where
  \<open>b\<close> has the key, then the keys only \<open>b\<close> has.\<close>

fun upsert :: "string \<Rightarrow> json \<Rightarrow> (string \<times> json) list \<Rightarrow> (string \<times> json) list" where
  "upsert k v [] = [(k, v)]"
| "upsert k v ((k', v') # r) = (if k = k' then (k, v) # r else (k', v') # upsert k v r)"

definition spread :: "(string \<times> json) list \<Rightarrow> (string \<times> json) list \<Rightarrow> (string \<times> json) list" where
  "spread a b = fold (\<lambda>(k, v) acc. upsert k v acc) b a"

text \<open>\<open>this.index.level4 = { ...previousLevel4, ...this.index.level4 }\<close>, with the map read
  under the \<open>try\<close> whose \<open>catch\<close> is empty.\<close>

definition mergeLevel4 :: "(string \<Rightarrow> json option) \<Rightarrow> project \<Rightarrow> full_index \<Rightarrow> full_index" where
  "mergeLevel4 jsonParse proj idx =
     idx\<lparr>level4 := spread (previousLevel4 (readPrior jsonParse proj)) (level4 idx)\<rparr>"

text \<open>\<open>fs.writeFileSync(path, data)\<close> in the project directory, called outside any \<open>try\<close>:
  what it throws, if anything. A file is created where nothing stands and replaced where a
  file stands. Where a directory stands the call throws (\<open>EISDIR\<close>). For a file that cannot
  be read the listing does not tell whether it can be written; the write is taken to fail
  there too, so that nothing is concluded from its success. Failures that the listing does
  not show (a full disk, a project directory without write permission) are not part of the
  model.\<close>

definition writeFileSync :: "project \<Rightarrow> string \<Rightarrow> js_error option" where
  "writeFileSync proj name =
     (case lookup (tree proj) [name] of
        None \<Rightarrow> None
      | Some (File n (Some text) m) \<Rightarrow> None
      | Some other \<Rightarrow> Some IOError)"

text \<open>\<open>saveIndex()\<close>: the merge, the write of \<open>codebase-index.json\<close>, then
  \<open>saveFormattedIndex\<close>, which renders the index as text (total on every index) and writes
  \<open>codebase-index-formatted.md\<close>. An exception of either write leaves \<open>saveIndex\<close> and
  \<open>generate\<close>.\<close>

definition saveIndex ::
    "(string \<Rightarrow> json option) \<Rightarrow> project \<Rightarrow> full_index \<Rightarrow> js_error + full_index" where
  "saveIndex jsonParse proj idx =
     (let idx' = mergeLevel4 jsonParse proj idx
      in case writeFileSync proj ''codebase-index.json'' of
           Some e \<Rightarrow> Inl e
         | None \<Rightarrow>
             (case writeFileSync proj ''codebase-index-formatted.md'' of
                Some e \<Rightarrow> Inl e
              | None \<Rightarrow> Inr idx'))"

definition detectNextJSVersion :: "package_json \<Rightarrow> string" where
  "detectNextJSVersion pj =
     (case js_or (depLookup (dependencies pj) ''next'') (depLookup (devDependencies pj) ''next'') of
        None \<Rightarrow> ''unknown''
      | Some v \<Rightarrow> if v = [] then ''unknown'' else v)"

definition newFullIndex :: "nat \<Rightarrow> project \<Rightarrow> full_index" where
  "newFullIndex now proj =
     \<lparr>generatedAt = now, nextjsVersion = detectNextJSVersion (loadPackageJson proj),
      level1 = Map.empty, level2 = Map.empty, level3 = Map.empty, level4 = [],
      arch_patterns = [], routes_pages = None, routes_app = None\<rparr>"

text \<open>\<open>new NextJSIndexGenerator(projectPath).generate()\<close>; every reading of the clock
  during the run is the one value \<open>now\<close>. \<open>buildFull\<close> is the index on which \<open>saveIndex\<close> is
  called, \<open>generate\<close> the run with its two writes, and \<open>generateFull\<close> the document of the
  run: the index as \<open>saveIndex\<close> serialises it.\<close>

definition buildFull :: "parser \<Rightarrow> nat \<Rightarrow> project \<Rightarrow> full_index" where
  "buildFull parse now proj =
     analyzeRoutes proj
       (analyzeArchitecturalPatterns proj
          (analyzeSourceFiles parse proj
             (generateLevel1 now proj (newFullIndex now proj))))"

definition generate ::
    "parser \<Rightarrow> (string \<Rightarrow> json option) \<Rightarrow> nat \<Rightarrow> project \<Rightarrow> js_error + full_index" where
  "generate parse jsonParse now proj = saveIndex jsonParse proj (buildFull parse now proj)"

definition generateFull ::
    "parser \<Rightarrow> (string \<Rightarrow> json option) \<Rightarrow> nat \<Rightarrow> project \<Rightarrow> full_index" where
  "generateFull parse jsonParse now proj = mergeLevel4 jsonParse proj (buildFull parse now proj)"

section \<open>Vocabulary of the properties\<close>

text \<open>The nodes of a tree in the order the traversal enters them, each with its chain of
  parents.\<close>

function paths :: "node list \<Rightarrow> node \<Rightarrow> (node list \<times> node) list"
  and paths_list :: "node list \<Rightarrow> node list \<Rightarrow> (node list \<times> node) list"
where
  "paths anc n = (anc, n) # paths_list (n # anc) (children n)"
| "paths_list anc [] = []"
| "paths_list anc (n # ns) = paths anc n @ paths_list anc ns"
  by pat_completeness auto
termination
proof (relation "measure (\<lambda>x. case x of
          Inl (anc, n) \<Rightarrow> 2 * size n + 1
        | Inr (anc, ns) \<Rightarrow> 2 * size_list size ns)")
  show "wf (measure (\<lambda>x. case x of
          Inl (anc, n) \<Rightarrow> 2 * size n + 1
        | Inr (anc :: node list, ns) \<Rightarrow> 2 * size_list size ns))"
    by simp
next
  fix anc :: "node list" and n :: node
  have "size_list size (children n) \<le> size n"
    by (cases n) (simp_all split: option.splits)
  then show "(Inr (n # anc, children n), Inl (anc, n))
        \<in> measure (\<lambda>x. case x of
          Inl (anc, n) \<Rightarrow> 2 * size n + 1
        | Inr (anc, ns) \<Rightarrow> 2 * size_list size ns)"
    by simp
qed simp_all

text \<open>The sources of the import declarations of a program, in source order.\<close>

fun importSource :: "node \<Rightarrow> string list" where
  "importSource (ImportDeclaration src) = [src]"
| "importSource n = []"

definition importSources :: "node list \<Rightarrow> string list" where
  "importSources body = concat (map (\<lambda>(anc, n). importSource n) (paths_list [] body))"

definition isRelativeSource :: "string \<Rightarrow> bool" where
  "isRelativeSource src = (startsWith src ''.'' \<or> startsWith src ''/'')"

text \<open>A program declares a function of a given name: by a function declaration, or by a
  variable of that name initialised with an arrow function.\<close>

fun isFunctionNamed :: "string \<Rightarrow> node \<Rightarrow> bool" where
  "isFunctionNamed nm (FunctionDeclaration i ps asy body) = (i = Some nm)"
| "isFunctionNamed nm n = False"

fun isArrowNamed :: "string \<Rightarrow> node list \<Rightarrow> node \<Rightarrow> bool" where
  "isArrowNamed nm (VariableDeclarator i ini # up) (ArrowFunctionExpression ps asy body) =
     (i = Some nm)"
| "isArrowNamed nm anc n = False"

definition declares :: "string \<Rightarrow> node list \<Rightarrow> bool" where
  "declares nm body =
     list_ex (\<lambda>(anc, n). isFunctionNamed nm n \<or> isArrowNamed nm anc n) (paths_list [] body)"

definition declaresExportedFunction :: "string \<Rightarrow> node list \<Rightarrow> bool" where
  "declaresExportedFunction nm body =
     list_ex (\<lambda>(anc, n). isFunctionNamed nm n \<and> isExported (n # anc)) (paths_list [] body)"

text \<open>A directory record with its time stamp blanked.\<close>

definition withoutTime :: "dir_record \<Rightarrow> dir_record" where
  "withoutTime r = r\<lparr>d_lastModified := 0\<rparr>"

text \<open>Two states of the loops of \<open>generateLevel1\<close> that agree up to time stamps.\<close>

definition alike ::
    "string set \<times> (string \<rightharpoonup> dir_record) \<Rightarrow> string set \<times> (string \<rightharpoonup> dir_record) \<Rightarrow> bool" where
  "alike a b =
     (fst a = fst b \<and> map_option withoutTime \<circ> snd a = map_option withoutTime \<circ> snd b)"

text \<open>The files a run writes into the project directory, and a listing without them.\<close>

definition outputNames :: "string list" where
  "outputNames =
     [''code-index.json'', ''code-index.md'', ''codebase-index.json'',
      ''codebase-index-formatted.md'']"

fun isOutputFile :: "fs_entry \<Rightarrow> bool" where
  "isOutputFile (File n c m) = (n \<in> set outputNames)"
| "isOutputFile e = False"

definition withoutOutputs :: "fs_entry list \<Rightarrow> fs_entry list" where
  "withoutOutputs es = filter (\<lambda>e. \<not> isOutputFile e) es"

text \<open>The test by which \<open>analyzeSourceFiles\<close> selects among the walked files.\<close>

definition scriptFile :: "found \<Rightarrow> bool" where
  "scriptFile = (\<lambda>(file, c, m).
               extname file \<in> set [''.js'', ''.jsx'', ''.ts'', ''.tsx'']
               \<and> \<not> str_includes file ''node_modules'' \<and> \<not> str_includes file ''.next'')"

section \<open>Example inputs\<close>

text \<open>An API route file of a project at \<open>/srv/shop\<close> with the text
  \<open>export async function GET(req) {}\<close>, and what the parser makes of it.\<close>

definition apiFile :: found where
  "apiFile = (''/srv/shop/pages/api/users.ts'', Some ''export async function GET(req) {}'', 0)"

definition parseGET :: parser where
  "parseGET plugins recover code =
     Some [ExportNamedDeclaration
             (Some (FunctionDeclaration (Some ''GET'') [PIdentifier ''req''] True [])) []]"

definition emptyFull :: full_index where
  "emptyFull =
     \<lparr>generatedAt = 0, nextjsVersion = ''unknown'', level1 = Map.empty, level2 = Map.empty,
      level3 = Map.empty, level4 = [], arch_patterns = [], routes_pages = None,
      routes_app = None\<rparr>"

definition emptyCompact :: compact_gen where
  "emptyCompact =
     \<lparr>g_generated = 0, g_framework = ''JavaScript'', g_structure = Map.empty,
      g_modules = Map.empty, g_exports = Map.empty, g_patterns = None, currentTokens = 0\<rparr>"

text \<open>Texts without colliding declarations: the scope building throws on none.\<close>

definition noCollision :: crawler where
  "noCollision plugins code = None"

text \<open>A library file with the text \<open>const a = 1; const a = 2;\<close>: the recovering parser
  returns its tree, and the scope building throws on the second declaration.\<close>

definition redeclaredFile :: found where
  "redeclaredFile = (''/srv/shop/lib/twice.js'', Some ''const a = 1; const a = 2;'', 0)"

definition parseRedeclared :: parser where
  "parseRedeclared plugins recover code =
     (if recover
      then Some [VariableDeclaration [VariableDeclarator (Some ''a'') [Other None []]],
                 VariableDeclaration [VariableDeclarator (Some ''a'') [Other None []]]]
      else None)"

definition crawlRedeclared :: crawler where
  "crawlRedeclared plugins code =
     (if code = ''const a = 1; const a = 2;'' then Some TypeError else None)"

text \<open>The length of \<open>JSON.stringify\<close> of an analysis whose strings need no escaping.\<close>

definition itemsLength :: "string list \<Rightarrow> nat" where
  "itemsLength xs = sum_list (map (\<lambda>s. length s + 2) xs) + (length xs - 1)"

definition plainLength :: "compact_analysis \<Rightarrow> nat" where
  "plainLength a =
     51 + length (c_type a) + itemsLength (c_exports a) + itemsLength (c_imports a)
        + itemsLength (c_features a)"

text \<open>A library file with the text \<open>const use = () => {}\<close>, one with
  \<open>function use() {}\<close>, and one with \<open>export function use() {}\<close>.\<close>

definition useArrowFile :: found where
  "useArrowFile = (''/srv/shop/lib/use.js'', Some ''const use = () => {}'', 0)"

definition useArrowBody :: "node list" where
  "useArrowBody =
     [VariableDeclaration [VariableDeclarator (Some ''use'') [ArrowFunctionExpression [] False []]]]"

definition parseUseArrow :: parser where
  "parseUseArrow plugins recover code = Some useArrowBody"

definition useExportedFile :: found where
  "useExportedFile = (''/srv/shop/lib/use.js'', Some ''export function use() {}'', 0)"

definition useExportedBody :: "node list" where
  "useExportedBody =
     [ExportNamedDeclaration (Some (FunctionDeclaration (Some ''use'') [] False [])) []]"

definition parseUseExported :: parser where
  "parseUseExported plugins recover code = Some useExportedBody"

text \<open>A module with eleven imports from packages and eleven exported names.\<close>

definition elevenSources :: "string list" where
  "elevenSources =
     [''react'', ''next/link'', ''next/image'', ''swr'', ''zod'', ''clsx'', ''axios'', ''dayjs'',
      ''lodash'', ''uuid'', ''immer'']"

definition elevenNames :: "string list" where
  "elevenNames =
     [''a'', ''b'', ''c'', ''d'', ''e'', ''f'', ''g'', ''h'', ''i'', ''j'', ''k'']"

definition manyBody :: "node list" where
  "manyBody = map ImportDeclaration elevenSources @ [ExportNamedDeclaration None elevenNames]"

definition parseMany :: parser where
  "parseMany plugins recover code = Some manyBody"

definition manyFile :: found where
  "manyFile = (''/srv/shop/lib/many.js'', Some ''/* eleven imports, eleven exports */'', 0)"

definition manyProject :: project where
  "manyProject =
     \<lparr>projectPath = ''/srv/shop'',
      tree = [Dir ''lib'' [File ''many.js'' (Some ''/* eleven imports, eleven exports */'') 0]],
      packageFile = None\<rparr>"

text \<open>A module that imports a sibling file and a package.\<close>

definition siblingBody :: "node list" where
  "siblingBody = [ImportDeclaration ''./util'', ImportDeclaration ''react'']"

definition parseSibling :: parser where
  "parseSibling plugins recover code = Some siblingBody"

definition siblingFile :: found where
  "siblingFile = (''/srv/shop/lib/a.js'', Some ''/* two imports */'', 0)"



text \<open>A size estimate under which one record exhausts the budget, and a project with two
  library files.\<close>

definition hugeLength :: "compact_analysis \<Rightarrow> nat" where
  "hugeLength a = 90000"

definition firstFile :: found where
  "firstFile = (''/srv/shop/lib/a.js'', Some ''/* two imports */'', 0)"

definition secondFile :: found where
  "secondFile = (''/srv/shop/lib/b.js'', Some ''/* two imports */'', 0)"

definition twoProject :: project where
  "twoProject =
     \<lparr>projectPath = ''/srv/shop'',
      tree = [Dir ''lib'' [File ''a.js'' (Some ''/* two imports */'') 0,
                           File ''b.js'' (Some ''/* two imports */'') 0]],
      packageFile = None\<rparr>"

text \<open>Three projects that differ in what stands at \<open>codebase-index.json\<close>: a document
  with two deep-detail entries, a text that is no JSON, and nothing; and a JSON parser that
  knows the one document.\<close>

definition priorText :: string where
  "priorText = ''{level4: {a.ts:f: old, b.ts:g: kept}}''"

definition priorDetail :: "(string \<times> json) list" where
  "priorDetail = [(''a.ts:f'', JStr ''old''), (''b.ts:g'', JStr ''kept'')]"

definition parseJson :: "string \<Rightarrow> json option" where
  "parseJson text =
     (if text = priorText then Some (JObj [(''metadata'', JNull), (''level4'', JObj priorDetail)])
      else None)"




text \<open>A project with a directory where the index is to be written.\<close>

definition projectWithDirectory :: project where
  "projectWithDirectory =
     \<lparr>projectPath = ''/srv/shop'', tree = [Dir ''codebase-index.json'' []],
      packageFile = None\<rparr>"


text \<open>The project with two library files as a second run finds it: with the four files the
  first runs wrote.\<close>

definition secondRunProject :: project where
  "secondRunProject =
     \<lparr>projectPath = ''/srv/shop'',
      tree = [File ''code-index.json'' (Some ''{}'') 9,
              Dir ''lib'' [File ''a.js'' (Some ''/* two imports */'') 0,
                           File ''b.js'' (Some ''/* two imports */'') 0],
              File ''code-index.md'' (Some ''# Codebase Index'') 9,
              File ''codebase-index.json'' (Some ''{}'') 9,
              File ''codebase-index-formatted.md'' (Some ''# Codebase Index'') 9],
      packageFile = None\<rparr>"

section \<open>Facts about paths and the traversal\<close>

lemma path_relative_join: "path_relative d (path_join d x) = x"
  by (simp add: path_relative_def path_join_def startsWith_def)

lemma path_relative_join2: "path_relative d (path_join (path_join d x) y) = x @ ''/'' @ y"
  by (simp add: path_relative_def path_join_def startsWith_def)

text \<open>A visitor that throws at some node of the tree, whatever the state, makes the
  traversal throw: either there or earlier.\<close>

lemma traverse_throws_aux:
  "(\<forall>s. (\<exists>p \<in> set (paths anc n). \<forall>t. isl (v (fst p) (snd p) t)) \<longrightarrow> isl (traverse v anc n s))"
  "(\<forall>s. (\<exists>p \<in> set (paths_list anc ns). \<forall>t. isl (v (fst p) (snd p) t))
        \<longrightarrow> isl (traverse_list v anc ns s))"
proof (induction anc n and anc ns rule: paths_paths_list.induct)
  case (1 anc n)
  show ?case
  proof (intro allI impI)
    fix s
    assume ex: "\<exists>p \<in> set (paths anc n). \<forall>t. isl (v (fst p) (snd p) t)"
    show "isl (traverse v anc n s)"
    proof (cases "v anc n s")
      case (Inl e)
      then show ?thesis by simp
    next
      case (Inr s')
      then have "\<not> (\<forall>t. isl (v anc n t))"
        by (metis sum.disc(2))
      with ex have "\<exists>p \<in> set (paths_list (n # anc) (children n)). \<forall>t. isl (v (fst p) (snd p) t)"
        by (auto simp del: paths.simps simp add: paths.simps[of anc n])
      with 1 have "isl (traverse_list v (n # anc) (children n) s')" by blast
      with Inr show ?thesis by simp
    qed
  qed
next
  case (2 anc)
  show ?case by simp
next
  case (3 anc n ns)
  show ?case
  proof (intro allI impI)
    fix s
    assume ex: "\<exists>p \<in> set (paths_list anc (n # ns)). \<forall>t. isl (v (fst p) (snd p) t)"
    show "isl (traverse_list v anc (n # ns) s)"
    proof (cases "traverse v anc n s")
      case (Inl e)
      then show ?thesis by (simp del: traverse.simps)
    next
      case (Inr s')
      have "\<not> (\<exists>p \<in> set (paths anc n). \<forall>t. isl (v (fst p) (snd p) t))"
        using 3(1) Inr by (metis sum.disc(2))
      with ex have "\<exists>p \<in> set (paths_list anc ns). \<forall>t. isl (v (fst p) (snd p) t)"
        by (auto simp del: paths.simps)
      with 3(2) have "isl (traverse_list v anc ns s')" by blast
      with Inr show ?thesis by (simp del: traverse.simps)
    qed
  qed
qed

text \<open>A component of the state to which every visitor only appends is, after a traversal
  that returns, the old value followed by the contributions of the nodes in order.\<close>

lemma traverse_accum_aux:
  "(\<forall>a n s s'. v a n s = Inr s' \<longrightarrow> p s' = p s @ g a n) \<longrightarrow>
   (\<forall>s'. traverse v anc n s = Inr s'
      \<longrightarrow> p s' = p s @ concat (map (\<lambda>(a, n). g a n) (paths anc n)))"
  "(\<forall>a n s s'. v a n s = Inr s' \<longrightarrow> p s' = p s @ g a n) \<longrightarrow>
   (\<forall>s'. traverse_list v anc ns s = Inr s'
      \<longrightarrow> p s' = p s @ concat (map (\<lambda>(a, n). g a n) (paths_list anc ns)))"
proof (induction v anc n s and v anc ns s rule: traverse_traverse_list.induct)
  case (1 v anc n s)
  show ?case
  proof (intro allI impI)
    fix s'
    assume step: "\<forall>a n s s'. v a n s = Inr s' \<longrightarrow> p s' = p s @ g a n"
    assume t: "traverse v anc n s = Inr s'"
    then obtain s1 where s1: "v anc n s = Inr s1"
      and r: "traverse_list v (n # anc) (children n) s1 = Inr s'"
      by (auto split: sum.splits)
    from 1[OF s1] step r
    have "p s' = p s1 @ concat (map (\<lambda>(a, n). g a n) (paths_list (n # anc) (children n)))"
      by blast
    moreover from step s1 have "p s1 = p s @ g anc n" by blast
    ultimately show "p s' = p s @ concat (map (\<lambda>(a, n). g a n) (paths anc n))"
      by simp
  qed
next
  case (2 v anc s)
  show ?case by simp
next
  case (3 v anc n ns s)
  show ?case
  proof (intro allI impI)
    fix s'
    assume step: "\<forall>a n s s'. v a n s = Inr s' \<longrightarrow> p s' = p s @ g a n"
    assume t: "traverse_list v anc (n # ns) s = Inr s'"
    then obtain s1 where s1: "traverse v anc n s = Inr s1"
      and r: "traverse_list v anc ns s1 = Inr s'"
      by (auto simp del: traverse.simps split: sum.splits)
    from 3(1) step s1
    have a: "p s1 = p s @ concat (map (\<lambda>(a, n). g a n) (paths anc n))" by blast
    from 3(2)[OF s1] step r
    have b: "p s' = p s1 @ concat (map (\<lambda>(a, n). g a n) (paths_list anc ns))" by blast
    from a b show "p s' = p s @ concat (map (\<lambda>(a, n). g a n) (paths_list anc (n # ns)))"
      by (simp del: paths.simps)
  qed
qed

section \<open>Route derivation\<close>

lemma route_slug: "filePathToRoute ''blog/[slug].tsx'' ''pages'' = Some ''/blog/:slug''"
  by (simp add: filePathToRoute_def stripScriptExt_def endsWith_def startsWith_def
      withLeadingSlash_def)

lemma route_dashboard: "filePathToRoute ''dashboard/page.tsx'' ''app'' = Some ''/dashboard''"
  by (simp add: filePathToRoute_def stripScriptExt_def endsWith_def startsWith_def
      withLeadingSlash_def)

lemma route_index: "filePathToRoute ''index.tsx'' ''pages'' = Some ''/''"
  by (simp add: filePathToRoute_def stripScriptExt_def endsWith_def startsWith_def
      withLeadingSlash_def)

lemma files_slug:
  "getFilesRecursively d [Dir ''blog'' [File ''[slug].tsx'' c m]]
     = [(path_join (path_join d ''blog'') ''[slug].tsx'', c, m)]"
  by (simp add: hiddenOrModules_def isRelevantFileFull_def endsWith_def startsWith_def)

lemma files_dashboard:
  "getFilesRecursively d [Dir ''dashboard'' [File ''page.tsx'' c m]]
     = [(path_join (path_join d ''dashboard'') ''page.tsx'', c, m)]"
  by (simp add: hiddenOrModules_def isRelevantFileFull_def endsWith_def startsWith_def)

lemma files_index:
  "getFilesRecursively d [File ''index.tsx'' c m] = [(path_join d ''index.tsx'', c, m)]"
  by (simp add: hiddenOrModules_def isRelevantFileFull_def endsWith_def startsWith_def)

text \<open>
  C6. Whatever the project path and the files' contents: under the pages directory the file
  \<open>blog/[slug].tsx\<close> (project path \<open>pages/blog/[slug].tsx\<close>) gets the route \<open>/blog/:slug\<close>
  and \<open>index.tsx\<close> gets the root route \<open>/\<close>; under the app directory the file
  \<open>dashboard/page.tsx\<close> gets the route \<open>/dashboard\<close>.
\<close>

theorem route_derivation_examples:
  "map_option (map r_path)
     (routesFor \<lparr>projectPath = base, tree = [Dir ''pages'' [Dir ''blog'' [File ''[slug].tsx'' c m]]],
                 packageFile = pf\<rparr> ''pages'') = Some [''/blog/:slug'']
   \<and> map_option (map r_path)
     (routesFor \<lparr>projectPath = base, tree = [Dir ''app'' [Dir ''dashboard'' [File ''page.tsx'' c m]]],
                 packageFile = pf\<rparr> ''app'') = Some [''/dashboard'']
   \<and> map_option (map r_path)
     (routesFor \<lparr>projectPath = base, tree = [Dir ''pages'' [File ''index.tsx'' c m]],
                 packageFile = pf\<rparr> ''pages'') = Some [''/'']"
  by (simp add: routesFor_def extractRoutes_def files_slug files_dashboard files_index
      path_relative_join path_relative_join2 route_slug route_dashboard route_index Let_def
      del: getFilesRecursively.simps)

section \<open>Classification\<close>

lemma upper_G: "toUpperCase CHR ''G'' = CHR ''G''"
  by (simp add: toUpperCase_def)

lemma includes_api: "str_includes ''/srv/shop/pages/api/users.ts'' ''/api/''"
  by (simp add: startsWith_def)

lemma upper_P: "toUpperCase CHR ''P'' = CHR ''P''"
  by (simp add: toUpperCase_def)

lemma upper_D: "toUpperCase CHR ''D'' = CHR ''D''"
  by (simp add: toUpperCase_def)

text \<open>
  C1. The rule for API handlers is not the first one: in the comprehensive generator the
  visitor of function declarations asks \<open>isReactComponent\<close> first, in the budget-aware
  generator \<open>classifyFunction\<close> tests the upper-case initial first, and each of the five verb
  names passes that test. So a declared function \<open>GET\<close> is a component for every file path,
  also in \<open>/srv/shop/pages/api/users.ts\<close>, whose path contains the API segment and for which
  \<open>isApiRoute\<close> holds; the signature entry of that file's \<open>GET\<close> has the type \<open>component\<close>.
\<close>

theorem GET_in_api_file_is_component:
  "fullVisitor filePath anc (FunctionDeclaration (Some ''GET'') ps asy body) a
     = Inr (a\<lparr>a_components := a_components a @
               [\<lparr>f_name = Some ''GET'', f_params = map getParamName ps, f_async = asy,
                 f_isExported = isExported (FunctionDeclaration (Some ''GET'') ps asy body # anc)\<rparr>]\<rparr>)
   \<and> classifyFunction (Some ''GET'') = Inr ''component''
   \<and> isApiRoute (fst apiFile) (Some ''GET'')
   \<and> map_option s_type (level3 (analyzeAll parseGET ''/srv/shop'' [apiFile] emptyFull)
                           ''pages/api/users.ts:GET'') = Some ''component''
   \<and> map isReactComponent (map Some httpVerbs) = [True, True, True, True, True]
   \<and> map classifyFunction (map Some httpVerbs)
       = [Inr ''component'', Inr ''component'', Inr ''component'', Inr ''component'',
          Inr ''component'']"
proof -
  have a: "isReactComponent (Some ''GET'')"
    by (simp add: isReactComponent_def upper_G)
  have b: "classifyFunction (Some ''GET'') = Inr ''component''"
    by (simp add: classifyFunction_def upper_G)
  have c: "isApiRoute (fst apiFile) (Some ''GET'')"
    by (simp add: isApiRoute_def apiFile_def includes_api httpVerbs_def del: str_includes.simps)
  have rel: "path_relative ''/srv/shop'' ''/srv/shop/pages/api/users.ts'' = ''pages/api/users.ts''"
    by (simp add: path_relative_def startsWith_def)
  have d: "map_option s_type (level3 (analyzeAll parseGET ''/srv/shop'' [apiFile] emptyFull)
                           ''pages/api/users.ts:GET'') = Some ''component''"
    by (simp add: apiFile_def parseGET_def emptyFull_def rel classifyDeclared_def a
        empty_analysis_def addSignatures_def signatureOf_def classifyItem_def
        pushFeatureIfFetching_def nextjsDataFetchingFns_def Let_def isExported_def
        del: str_includes.simps)
  have e: "map isReactComponent (map Some httpVerbs) = [True, True, True, True, True]"
    by (simp add: httpVerbs_def isReactComponent_def upper_G upper_P upper_D)
  have f: "map classifyFunction (map Some httpVerbs)
       = [Inr ''component'', Inr ''component'', Inr ''component'', Inr ''component'',
          Inr ''component'']"
    by (simp add: httpVerbs_def classifyFunction_def upper_G upper_P upper_D)
  show ?thesis
    using a b c d e f by (simp add: classifyDeclared_def)
qed

section \<open>The TypeError of the hook test on the name \<open>use\<close>\<close>

lemma upper_u: "toUpperCase CHR ''u'' = CHR ''U''"
  by (simp add: toUpperCase_def)

lemma useThenUpper_use: "useThenUpper ''use'' = Inl TypeError"
  by (simp add: useThenUpper_def startsWith_def)

lemma isCustomHook_use: "isCustomHook (Some ''use'') = Inl TypeError"
  by (simp add: isCustomHook_def useThenUpper_use)

lemma not_component_use: "\<not> isReactComponent (Some ''use'')"
  by (simp add: isReactComponent_def upper_u)

lemma classifyFunction_use: "classifyFunction (Some ''use'') = Inl TypeError"
  by (simp add: classifyFunction_def upper_u useThenUpper_use)

lemma fullVisitor_use:
  "isFunctionNamed ''use'' n \<or> isArrowNamed ''use'' anc n \<Longrightarrow> fullVisitor fp anc n a = Inl TypeError"
proof (cases n)
  case (FunctionDeclaration i ps asy body)
  assume "isFunctionNamed ''use'' n \<or> isArrowNamed ''use'' anc n"
  with FunctionDeclaration have "i = Some ''use''" by simp
  with FunctionDeclaration show ?thesis
    by (simp add: classifyDeclared_def not_component_use isCustomHook_use)
next
  case (ArrowFunctionExpression ps asy body)
  assume "isFunctionNamed ''use'' n \<or> isArrowNamed ''use'' anc n"
  with ArrowFunctionExpression have ar: "isArrowNamed ''use'' anc (ArrowFunctionExpression ps asy body)"
    by simp
  then obtain ini up where "anc = VariableDeclarator (Some ''use'') ini # up"
    by (cases "(''use'', anc, ArrowFunctionExpression ps asy body)" rule: isArrowNamed.cases) auto
  with ArrowFunctionExpression show ?thesis
    by (simp add: classifyArrow_def not_component_use isCustomHook_use)
qed auto

lemma compactVisitor_use:
  "isFunctionNamed ''use'' n \<Longrightarrow> isExported (n # anc) \<Longrightarrow> compactVisitor rel anc n s = Inl TypeError"
  by (cases n; cases s) (simp_all add: classifyFunction_use)

lemma declares_throws:
  assumes "declares ''use'' body"
  shows "isl (traverse_list (fullVisitor fp) [] body s)"
proof -
  from assms obtain p where p: "p \<in> set (paths_list [] body)"
    and d: "isFunctionNamed ''use'' (snd p) \<or> isArrowNamed ''use'' (fst p) (snd p)"
    by (auto simp: declares_def list_ex_iff)
  have "\<forall>t. isl (fullVisitor fp (fst p) (snd p) t)"
    using fullVisitor_use[OF d] by simp
  with p show ?thesis
    using traverse_throws_aux(2)[of "[]" body "fullVisitor fp"] by blast
qed

lemma declaresExported_throws:
  assumes "declaresExportedFunction ''use'' body"
  shows "isl (traverse_list (compactVisitor rel) [] body s)"
proof -
  from assms obtain p where p: "p \<in> set (paths_list [] body)"
    and d: "isFunctionNamed ''use'' (snd p)" "isExported (snd p # fst p)"
    by (auto simp: declaresExportedFunction_def list_ex_iff)
  have "\<forall>t. isl (compactVisitor rel (fst p) (snd p) t)"
    using compactVisitor_use[OF d] by simp
  with p show ?thesis
    using traverse_throws_aux(2)[of "[]" body "compactVisitor rel"] by blast
qed

text \<open>A traversal that throws does so at one of the nodes of the tree.\<close>

lemma traverse_error_aux:
  "\<forall>e s'. traverse v anc n s = Inl (e, s')
      \<longrightarrow> (\<exists>p \<in> set (paths anc n). \<exists>t. v (fst p) (snd p) t = Inl e)"
  "\<forall>e s'. traverse_list v anc ns s = Inl (e, s')
      \<longrightarrow> (\<exists>p \<in> set (paths_list anc ns). \<exists>t. v (fst p) (snd p) t = Inl e)"
proof (induction v anc n s and v anc ns s rule: traverse_traverse_list.induct)
  case (1 v anc n s)
  show ?case
  proof (intro allI impI)
    fix e s'
    assume t: "traverse v anc n s = Inl (e, s')"
    show "\<exists>p \<in> set (paths anc n). \<exists>t. v (fst p) (snd p) t = Inl e"
    proof (cases "v anc n s")
      case (Inl e')
      with t have "e' = e" by simp
      with Inl have "v (fst (anc, n)) (snd (anc, n)) s = Inl e" by simp
      moreover have "(anc, n) \<in> set (paths anc n)" by simp
      ultimately show ?thesis by blast
    next
      case (Inr s1)
      with t have "traverse_list v (n # anc) (children n) s1 = Inl (e, s')" by simp
      with 1[OF Inr]
      obtain p where "p \<in> set (paths_list (n # anc) (children n))"
        and "\<exists>t. v (fst p) (snd p) t = Inl e" by blast
      moreover then have "p \<in> set (paths anc n)" by simp
      ultimately show ?thesis by blast
    qed
  qed
next
  case (2 v anc s)
  show ?case by simp
next
  case (3 v anc n ns s)
  show ?case
  proof (intro allI impI)
    fix e s'
    assume t: "traverse_list v anc (n # ns) s = Inl (e, s')"
    show "\<exists>p \<in> set (paths_list anc (n # ns)). \<exists>t. v (fst p) (snd p) t = Inl e"
    proof (cases "traverse v anc n s")
      case (Inl q)
      with t have "traverse v anc n s = Inl (e, s')" by (simp del: traverse.simps)
      with 3(1) obtain p where "p \<in> set (paths anc n)"
        and "\<exists>t. v (fst p) (snd p) t = Inl e" by blast
      moreover then have "p \<in> set (paths_list anc (n # ns))" by (simp del: paths.simps)
      ultimately show ?thesis by blast
    next
      case (Inr s1)
      with t have "traverse_list v anc ns s1 = Inl (e, s')" by (simp del: traverse.simps)
      with 3(2)[OF Inr] obtain p where "p \<in> set (paths_list anc ns)"
        and "\<exists>t. v (fst p) (snd p) t = Inl e" by blast
      moreover then have "p \<in> set (paths_list anc (n # ns))" by (simp del: paths.simps)
      ultimately show ?thesis by blast
    qed
  qed
qed

lemma useThenUpper_error: "useThenUpper s = Inl e \<Longrightarrow> e = TypeError"
  by (simp add: useThenUpper_def split: if_splits)

lemma isCustomHook_error: "isCustomHook nm = Inl e \<Longrightarrow> e = TypeError"
  by (auto simp: isCustomHook_def split: option.splits if_splits dest: useThenUpper_error)

lemma classifyFunction_error: "classifyFunction nm = Inl e \<Longrightarrow> e = TypeError"
  by (auto simp: classifyFunction_def split: option.splits list.splits if_splits sum.splits bool.splits
      dest: useThenUpper_error)

lemma fullVisitor_error: "fullVisitor fp anc n a = Inl e \<Longrightarrow> e = TypeError"
  by (cases "(fp, anc, n, a)" rule: fullVisitor.cases)
     (auto simp: classifyDeclared_def classifyArrow_def
       split: if_splits sum.splits bool.splits list.splits node.splits option.splits
       dest: isCustomHook_error)

lemma compactVisitor_error: "compactVisitor rel anc n s = Inl e \<Longrightarrow> e = TypeError"
  by (cases "(rel, anc, n, s)" rule: compactVisitor.cases)
     (auto split: if_splits sum.splits option.splits dest: classifyFunction_error)

lemma analyzeFile_use:
  assumes p: "parse (pluginsFor filePath) False code = Some body" and d: "declares ''use'' body"
  shows "analyzeFile parse base (filePath, Some code, mtime) idx = Inl TypeError"
proof -
  have "isl (traverse_list (fullVisitor filePath) [] body empty_analysis)"
    using d by (rule declares_throws)
  then obtain e s' where t: "traverse_list (fullVisitor filePath) [] body empty_analysis = Inl (e, s')"
    by (cases "traverse_list (fullVisitor filePath) [] body empty_analysis") auto
  then obtain a m u where "fullVisitor filePath a m u = Inl e"
    using traverse_error_aux(2)[of "fullVisitor filePath" "[]" body empty_analysis] by blast
  then have "e = TypeError" by (rule fullVisitor_error)
  with p t show ?thesis by (simp add: Let_def)
qed

lemma analyzeFileCompact_modules:
  "g_modules (snd (analyzeFileCompact parse crawl len base f g)) = g_modules g"
  by (cases f) (auto simp: Let_def split: option.splits sum.splits prod.splits)

lemma analyzeFileCompact_use:
  assumes p: "parse (pluginsFor filePath) True code = Some body"
    and l: "length code \<le> 10000"
    and c: "crawl (pluginsFor filePath) code = None"
    and d: "declaresExportedFunction ''use'' body"
  shows "\<exists>ex. analyzeFileCompact parse crawl len base (filePath, Some code, mtime) g
            = (Inl TypeError, g\<lparr>g_exports := ex\<rparr>)"
proof -
  let ?rel = "path_relative base filePath"
  let ?s = "(\<lparr>c_type = classifyFile ?rel, c_exports = [], c_imports = [], c_features = []\<rparr>, g_exports g)"
  have "isl (traverse_list (compactVisitor ?rel) [] body ?s)"
    using d by (rule declaresExported_throws)
  then obtain e s' where t: "traverse_list (compactVisitor ?rel) [] body ?s = Inl (e, s')"
    by (cases "traverse_list (compactVisitor ?rel) [] body ?s") auto
  then obtain a m u where "compactVisitor ?rel a m u = Inl e"
    using traverse_error_aux(2)[of "compactVisitor ?rel" "[]" body ?s] by blast
  then have "e = TypeError" by (rule compactVisitor_error)
  with p l c t show ?thesis by (cases s') (force simp add: Let_def)
qed

text \<open>A file with an exported function declaration \<open>use\<close> never returns an analysis,
  whatever its length and whatever the scope building does.\<close>

lemma analyzeFileCompact_use_no_analysis:
  assumes p: "parse (pluginsFor filePath) True code = Some body"
    and d: "declaresExportedFunction ''use'' body"
  shows "fst (analyzeFileCompact parse crawl len base (filePath, Some code, mtime) g) \<noteq> Inr (Some a)"
proof -
  let ?rel = "path_relative base filePath"
  let ?s = "(\<lparr>c_type = classifyFile ?rel, c_exports = [], c_imports = [], c_features = []\<rparr>, g_exports g)"
  have "isl (traverse_list (compactVisitor ?rel) [] body ?s)"
    using d by (rule declaresExported_throws)
  then obtain e s' where t: "traverse_list (compactVisitor ?rel) [] body ?s = Inl (e, s')"
    by (cases "traverse_list (compactVisitor ?rel) [] body ?s") auto
  with p show ?thesis by (cases s') (simp add: Let_def split: option.splits)
qed

text \<open>A call that returns no analysis leaves the module map of the loop as it was.\<close>

lemma analyzeLoop_no_analysis:
  assumes "\<And>a. fst (analyzeFileCompact parse crawl len base f g) \<noteq> Inr (Some a)"
  shows "g_modules (analyzeLoop parse crawl len base [f] g) = g_modules g"
proof -
  obtain r g' where r: "analyzeFileCompact parse crawl len base f g = (r, g')"
    by (cases "analyzeFileCompact parse crawl len base f g")
  have m: "g_modules g' = g_modules g"
    using analyzeFileCompact_modules[of parse crawl len base f g] r by simp
  from assms r have "\<And>a. r \<noteq> Inr (Some a)" by simp
  with r m show ?thesis
    by (cases r) (auto simp del: analyzeFileCompact.simps split: option.splits)
qed

text \<open>A text on whose tree the scope building throws gets no record, and the exception is
  the one of the library.\<close>

lemma scope_failure_gives_no_record:
  assumes p: "parse (pluginsFor filePath) True code = Some body"
    and l: "length code \<le> 10000"
    and c: "crawl (pluginsFor filePath) code = Some e"
  shows "analyzeFileCompact parse crawl len base (filePath, Some code, mtime) g = (Inl e, g)"
    and "g_modules (analyzeLoop parse crawl len base [(filePath, Some code, mtime)] g) = g_modules g"
  using assms by (simp_all add: Let_def)

lemma redeclared_file_gets_no_record:
  "analyzeFileCompact parseRedeclared crawlRedeclared plainLength ''/srv/shop'' redeclaredFile
      emptyCompact = (Inl TypeError, emptyCompact)
   \<and> g_modules (analyzeLoop parseRedeclared crawlRedeclared plainLength ''/srv/shop''
        [redeclaredFile] emptyCompact) = Map.empty"
  by (simp add: redeclaredFile_def parseRedeclared_def crawlRedeclared_def emptyCompact_def
      maxTokens_def Let_def)

lemma useThenUpper_only_use: "useThenUpper s = Inl e \<Longrightarrow> s = ''use''"
proof -
  assume "useThenUpper s = Inl e"
  then have a: "take 3 s = ''use''" and b: "length s \<le> 3"
    by (auto simp: useThenUpper_def startsWith_def split: if_splits)
  from b have "take 3 s = s" by simp
  with a show ?thesis by simp
qed


lemma classifyFunction_only_use: "classifyFunction nm = Inl e \<Longrightarrow> nm = Some ''use''"
  by (auto simp: classifyFunction_def
      split: option.splits list.splits if_splits sum.splits bool.splits
      dest: useThenUpper_only_use)






text \<open>
  C10 (as amended). The hook test throws a TypeError on the name \<open>use\<close>, in both
  generators. Comprehensive generator: a file whose program declares a function \<open>use\<close>, by a
  function declaration or by a variable initialised with an arrow function, makes
  \<open>analyzeFile\<close> throw that TypeError, and the loop goes on as if the file were not there, so
  the file gets no record. Budget-aware generator: the same holds of a file with an exported
  function declaration \<open>use\<close>, the only declarations that this generator classifies: the
  loop adds no record for it, and when the file has at most 10000 characters and the scope
  building of the traversal throws nothing, what \<open>analyzeFileCompact\<close> throws is that
  TypeError.
\<close>

theorem use_named_function_gives_no_record:
  "isCustomHook (Some ''use'') = Inl TypeError
   \<and> classifyFunction (Some ''use'') = Inl TypeError
   \<and> (parse (pluginsFor filePath) False code = Some body \<and> declares ''use'' body \<longrightarrow>
        analyzeFile parse base (filePath, Some code, mtime) idx = Inl TypeError
        \<and> analyzeAll parse base ((filePath, Some code, mtime) # rest) idx
            = analyzeAll parse base rest idx)
   \<and> (parse (pluginsFor filePath) True code = Some body
        \<and> declaresExportedFunction ''use'' body \<longrightarrow>
        g_modules (analyzeLoop parse crawl len base [(filePath, Some code, mtime)] g) = g_modules g)
   \<and> (parse (pluginsFor filePath) True code = Some body \<and> length code \<le> 10000
        \<and> crawl (pluginsFor filePath) code = None
        \<and> declaresExportedFunction ''use'' body \<longrightarrow>
        fst (analyzeFileCompact parse crawl len base (filePath, Some code, mtime) g) = Inl TypeError)"
proof (intro conjI impI)
  show "isCustomHook (Some ''use'') = Inl TypeError" by (rule isCustomHook_use)
  show "classifyFunction (Some ''use'') = Inl TypeError" by (rule classifyFunction_use)
next
  assume h: "parse (pluginsFor filePath) False code = Some body \<and> declares ''use'' body"
  then show a: "analyzeFile parse base (filePath, Some code, mtime) idx = Inl TypeError"
    using analyzeFile_use by blast
  then show "analyzeAll parse base ((filePath, Some code, mtime) # rest) idx
            = analyzeAll parse base rest idx"
    by (simp del: analyzeFile.simps)
next
  assume h: "parse (pluginsFor filePath) True code = Some body
        \<and> declaresExportedFunction ''use'' body"
  then have "\<And>a. fst (analyzeFileCompact parse crawl len base (filePath, Some code, mtime) g)
            \<noteq> Inr (Some a)"
    using analyzeFileCompact_use_no_analysis by blast
  then show "g_modules (analyzeLoop parse crawl len base [(filePath, Some code, mtime)] g) = g_modules g"
    by (rule analyzeLoop_no_analysis)
next
  assume h: "parse (pluginsFor filePath) True code = Some body \<and> length code \<le> 10000
        \<and> crawl (pluginsFor filePath) code = None
        \<and> declaresExportedFunction ''use'' body"
  then obtain ex where e: "analyzeFileCompact parse crawl len base (filePath, Some code, mtime) g
            = (Inl TypeError, g\<lparr>g_exports := ex\<rparr>)"
    using analyzeFileCompact_use by blast
  then show "fst (analyzeFileCompact parse crawl len base (filePath, Some code, mtime) g) = Inl TypeError"
    by (simp del: analyzeFileCompact.simps)
qed

lemma declares_useArrow: "declares ''use'' useArrowBody"
  by (simp add: declares_def useArrowBody_def)

lemma declares_useExported: "declaresExportedFunction ''use'' useExportedBody"
  by (simp add: declaresExportedFunction_def useExportedBody_def isExported_def)

theorem use_named_function_gives_no_record_witness:
  "(parseUseArrow (pluginsFor ''/srv/shop/lib/use.js'') False ''const use = () => {}''
       = Some useArrowBody
     \<and> declares ''use'' useArrowBody)
   \<and> analyzeFile parseUseArrow ''/srv/shop''
        (''/srv/shop/lib/use.js'', Some ''const use = () => {}'', 0) emptyFull = Inl TypeError
   \<and> analyzeAll parseUseArrow ''/srv/shop''
        [(''/srv/shop/lib/use.js'', Some ''const use = () => {}'', 0)] emptyFull = emptyFull
   \<and> (parseUseExported (pluginsFor ''/srv/shop/lib/use.js'') True ''export function use() {}''
       = Some useExportedBody
     \<and> length ''export function use() {}'' \<le> 10000
     \<and> noCollision (pluginsFor ''/srv/shop/lib/use.js'') ''export function use() {}'' = None
     \<and> declaresExportedFunction ''use'' useExportedBody)
   \<and> g_modules (analyzeLoop parseUseExported noCollision plainLength ''/srv/shop''
        [(''/srv/shop/lib/use.js'', Some ''export function use() {}'', 0)] emptyCompact)
       = g_modules emptyCompact
   \<and> fst (analyzeFileCompact parseUseExported noCollision plainLength ''/srv/shop''
        (''/srv/shop/lib/use.js'', Some ''export function use() {}'', 0) emptyCompact)
       = Inl TypeError"
proof -
  have h1: "parseUseArrow (pluginsFor ''/srv/shop/lib/use.js'') False ''const use = () => {}''
       = Some useArrowBody
     \<and> declares ''use'' useArrowBody"
    by (simp add: parseUseArrow_def declares_useArrow)
  have h3: "parseUseExported (pluginsFor ''/srv/shop/lib/use.js'') True ''export function use() {}''
       = Some useExportedBody
     \<and> length ''export function use() {}'' \<le> 10000
     \<and> noCollision (pluginsFor ''/srv/shop/lib/use.js'') ''export function use() {}'' = None
     \<and> declaresExportedFunction ''use'' useExportedBody"
    by (simp add: parseUseExported_def noCollision_def declares_useExported)
  from h3 have h2: "parseUseExported (pluginsFor ''/srv/shop/lib/use.js'') True ''export function use() {}''
       = Some useExportedBody
     \<and> declaresExportedFunction ''use'' useExportedBody"
    by (simp only: simp_thms)
  note t1 = use_named_function_gives_no_record
      [of parseUseArrow "''/srv/shop/lib/use.js''" "''const use = () => {}''" useArrowBody
          "''/srv/shop''" 0 emptyFull "[]" noCollision plainLength emptyCompact]
  note t3 = use_named_function_gives_no_record
      [of parseUseExported "''/srv/shop/lib/use.js''" "''export function use() {}''"
          useExportedBody "''/srv/shop''" 0 emptyFull "[]" noCollision plainLength emptyCompact]
  note r1 = t1[THEN conjunct2, THEN conjunct2, THEN conjunct1, THEN mp, OF h1]
  note r2 = t3[THEN conjunct2, THEN conjunct2, THEN conjunct2, THEN conjunct1, THEN mp, OF h2]
  note r3 = t3[THEN conjunct2, THEN conjunct2, THEN conjunct2, THEN conjunct2, THEN mp, OF h3]
  have e: "analyzeAll parseUseArrow ''/srv/shop'' [] emptyFull = emptyFull"
    by simp
  from h1 h3 r1[THEN conjunct1] r1[THEN conjunct2, unfolded e] r2 r3 show ?thesis
    by (simp only: simp_thms)
qed

lemma rel_use: "path_relative ''/srv/shop'' ''/srv/shop/lib/use.js'' = ''lib/use.js''"
  by (simp add: path_relative_def startsWith_def)

lemma classify_lib: "classifyFile ''lib/use.js'' = ''source''"
  by (simp add: classifyFile_def startsWith_def)

text \<open>
  C10 as stated fails in the budget-aware generator, which has no visitor for arrow functions
  and classifies exported function declarations only: the file \<open>lib/use.js\<close> with the text
  \<open>const use = () => {}\<close>, on which the scope building throws nothing, declares \<open>use\<close> and
  gets its record.
\<close>

theorem use_arrow_keeps_record_in_budget_variant:
  "declares ''use'' useArrowBody
   \<and> g_modules (analyzeLoop parseUseArrow noCollision plainLength ''/srv/shop'' [useArrowFile] emptyCompact)
        ''lib/use.js''
      = Some \<lparr>c_type = ''source'', c_exports = [], c_imports = [], c_features = []\<rparr>"
proof
  show "declares ''use'' useArrowBody" by (rule declares_useArrow)
  show "g_modules (analyzeLoop parseUseArrow noCollision plainLength ''/srv/shop'' [useArrowFile] emptyCompact)
        ''lib/use.js''
      = Some \<lparr>c_type = ''source'', c_exports = [], c_imports = [], c_features = []\<rparr>"
    by (simp add: useArrowFile_def parseUseArrow_def useArrowBody_def noCollision_def
      emptyCompact_def rel_use classify_lib maxTokens_def uniq_def Let_def)
qed

section \<open>What is recorded of the imports\<close>

lemma compactVisitor_imports:
  "compactVisitor rel anc n s = Inr s' \<Longrightarrow>
     c_imports (fst s') = c_imports (fst s) @ filter (\<lambda>x. \<not> isRelativeSource x) (importSource n)"
  by (cases "(rel, anc, n, s)" rule: compactVisitor.cases)
     (auto simp: isRelativeSource_def compactCall_def Let_def
       split: if_splits option.splits sum.splits)

lemma concat_filter_paths:
  "concat (map (\<lambda>(a, n). filter P (f n)) ps) = filter P (concat (map (\<lambda>(a, n). f n) ps))"
  by (induction ps) auto

lemma compact_traverse_imports:
  assumes "traverse_list (compactVisitor rel) [] body s = Inr s'"
  shows "c_imports (fst s') = c_imports (fst s)
           @ filter (\<lambda>x. \<not> isRelativeSource x) (importSources body)"
proof -
  have step: "\<forall>a n s s'. compactVisitor rel a n s = Inr s' \<longrightarrow>
      (c_imports \<circ> fst) s' = (c_imports \<circ> fst) s
         @ filter (\<lambda>x. \<not> isRelativeSource x) (importSource n)"
    using compactVisitor_imports by simp
  from traverse_accum_aux(2)[of "compactVisitor rel" "c_imports \<circ> fst"
      "\<lambda>a n. filter (\<lambda>x. \<not> isRelativeSource x) (importSource n)" "[]" body s] step assms
  show ?thesis
    by (simp add: importSources_def concat_filter_paths)
qed

lemma pushFeature_keeps:
  "a_imports (pushFeatureIfFetching nm a) = a_imports a"
  by (simp add: pushFeatureIfFetching_def split: option.splits)

lemma fold_pushFeature_imports:
  "a_imports (fold (\<lambda>decl acc. pushFeatureIfFetching (f decl) acc) ds a) = a_imports a"
  by (induction ds arbitrary: a) (simp_all add: pushFeature_keeps)

lemma fold_specs_imports:
  "a_imports (fold (\<lambda>spec acc. pushFeatureIfFetching (Some spec)
                   (acc\<lparr>a_exports := a_exports acc @ [(spec, ''named'')]\<rparr>)) specs a) = a_imports a"
  by (induction specs arbitrary: a) (simp_all add: pushFeature_keeps)

lemma visitExportNamed_imports: "a_imports (visitExportNamed d specs a) = a_imports a"
  by (simp add: Let_def fold_specs_imports fold_pushFeature_imports pushFeature_keeps
      split: option.splits node.splits)

lemma classifyDeclared_imports: "classifyDeclared fp fn a = Inr a' \<Longrightarrow> a_imports a' = a_imports a"
  by (auto simp: classifyDeclared_def split: if_splits sum.splits bool.splits)

lemma classifyArrow_imports: "classifyArrow fn a = Inr a' \<Longrightarrow> a_imports a' = a_imports a"
  by (auto simp: classifyArrow_def split: if_splits sum.splits bool.splits)

lemma fullVisitor_imports:
  "fullVisitor fp anc n a = Inr a' \<Longrightarrow> a_imports a' = a_imports a @ importSource n"
proof (cases n)
  case (ArrowFunctionExpression ps asy body)
  assume "fullVisitor fp anc n a = Inr a'"
  with ArrowFunctionExpression show ?thesis
    by (auto split: list.splits node.splits option.splits if_splits dest: classifyArrow_imports)
qed (auto simp: visitExportDefault_def visitCall_def pushFeature_keeps visitExportNamed_imports Let_def
       simp del: visitExportNamed.simps dest: classifyDeclared_imports)

lemma full_traverse_imports:
  assumes "traverse_list (fullVisitor fp) [] body a = Inr a'"
  shows "a_imports a' = a_imports a @ importSources body"
proof -
  have step: "\<forall>anc n s s'. fullVisitor fp anc n s = Inr s' \<longrightarrow>
      a_imports s' = a_imports s @ importSource n"
    using fullVisitor_imports by blast
  from traverse_accum_aux(2)[of "fullVisitor fp" a_imports "\<lambda>a n. importSource n" "[]" body a]
    step assms
  show ?thesis by (simp add: importSources_def)
qed

lemma set_uniq: "set (uniq xs) = set xs"
  by (simp add: uniq_def)

lemma analyzeFileCompact_result:
  assumes "length code \<le> 10000" and "parse (pluginsFor filePath) True code = Some body"
    and "fst (analyzeFileCompact parse crawl len base (filePath, Some code, mtime) g) = Inr (Some a)"
  shows "c_imports a = take 10 (uniq (filter (\<lambda>s. \<not> isRelativeSource s) (importSources body)))"
proof -
  let ?rel = "path_relative base filePath"
  let ?s = "(\<lparr>c_type = classifyFile ?rel, c_exports = [], c_imports = [], c_features = []\<rparr>, g_exports g)"
  show ?thesis
  proof (cases "traverse_list (compactVisitor ?rel) [] body ?s")
    case (Inl p)
    with assms show ?thesis by (cases p) (simp add: Let_def split: prod.splits option.splits)
  next
    case (Inr s')
    from compact_traverse_imports[OF Inr]
    have "c_imports (fst s') = filter (\<lambda>x. \<not> isRelativeSource x) (importSources body)"
      by simp
    with assms Inr show ?thesis by (cases s') (auto simp add: Let_def split: option.splits)
  qed
qed

lemma analyzeFile_result:
  assumes "parse (pluginsFor filePath) False code = Some body"
    and "analyzeFile parse base (filePath, Some code, mtime) idx = Inr idx'"
  shows "map_option m_imports (level2 idx' (path_relative base filePath)) = Some (importSources body)"
proof (cases "traverse_list (fullVisitor filePath) [] body empty_analysis")
  case (Inl p)
  with assms show ?thesis by (cases p) (simp add: Let_def)
next
  case (Inr a)
  from full_traverse_imports[OF Inr] have "a_imports a = importSources body"
    by (simp add: empty_analysis_def)
  with assms Inr show ?thesis by (auto simp add: Let_def moduleSummary_def)
qed

text \<open>
  C4 (as amended). Budget-aware generator: for a file that is analysed, the recorded imports
  are the first ten distinct sources, in order of first occurrence, among the import sources
  that begin neither with a dot nor with a slash; so no recorded source is relative, and when
  there are at most ten distinct ones every such source is recorded. Comprehensive generator:
  the record lists the source of every import declaration, relative or not, in source order.
\<close>

theorem recorded_imports:
  "(length code \<le> 10000 \<and> parse (pluginsFor filePath) True code = Some body
      \<and> fst (analyzeFileCompact parse crawl len base (filePath, Some code, mtime) g) = Inr (Some a) \<longrightarrow>
        c_imports a = take 10 (uniq (filter (\<lambda>s. \<not> isRelativeSource s) (importSources body)))
        \<and> list_all (\<lambda>s. \<not> isRelativeSource s) (c_imports a)
        \<and> (length (uniq (filter (\<lambda>s. \<not> isRelativeSource s) (importSources body))) \<le> 10 \<longrightarrow>
             set (c_imports a) = {s \<in> set (importSources body). \<not> isRelativeSource s}))
   \<and> (parse (pluginsFor filePath) False code = Some body
      \<and> analyzeFile parse base (filePath, Some code, mtime) idx = Inr idx' \<longrightarrow>
        map_option m_imports (level2 idx' (path_relative base filePath)) = Some (importSources body))"
proof (intro conjI impI)
  assume h: "length code \<le> 10000 \<and> parse (pluginsFor filePath) True code = Some body
      \<and> fst (analyzeFileCompact parse crawl len base (filePath, Some code, mtime) g) = Inr (Some a)"
  then show eq: "c_imports a = take 10 (uniq (filter (\<lambda>s. \<not> isRelativeSource s) (importSources body)))"
    using analyzeFileCompact_result by blast
  have "set (c_imports a) \<subseteq> set (uniq (filter (\<lambda>s. \<not> isRelativeSource s) (importSources body)))"
    unfolding eq by (rule set_take_subset)
  then show "list_all (\<lambda>s. \<not> isRelativeSource s) (c_imports a)"
    by (auto simp: list_all_iff set_uniq)
  assume "length (uniq (filter (\<lambda>s. \<not> isRelativeSource s) (importSources body))) \<le> 10"
  then have "c_imports a = uniq (filter (\<lambda>s. \<not> isRelativeSource s) (importSources body))"
    unfolding eq by simp
  then show "set (c_imports a) = {s \<in> set (importSources body). \<not> isRelativeSource s}"
    by (simp add: set_uniq)
next
  assume "parse (pluginsFor filePath) False code = Some body
      \<and> analyzeFile parse base (filePath, Some code, mtime) idx = Inr idx'"
  then show "map_option m_imports (level2 idx' (path_relative base filePath)) = Some (importSources body)"
    using analyzeFile_result by blast
qed

lemma rel_a: "path_relative ''/srv/shop'' ''/srv/shop/lib/a.js'' = ''lib/a.js''"
  by (simp add: path_relative_def startsWith_def)

lemma importSources_sibling: "importSources siblingBody = [''./util'', ''react'']"
  by (simp add: importSources_def siblingBody_def)

lemma relative_util: "isRelativeSource ''./util''"
  by (simp add: isRelativeSource_def startsWith_def)

lemma not_relative_react: "\<not> isRelativeSource ''react''"
  by (simp add: isRelativeSource_def startsWith_def)

lemma sibling_compact:
  "fst (analyzeFileCompact parseSibling noCollision plainLength ''/srv/shop'' siblingFile emptyCompact)
     = Inr (Some \<lparr>c_type = ''source'', c_exports = [], c_imports = [''react''], c_features = []\<rparr>)"
  by (simp add: siblingFile_def parseSibling_def siblingBody_def emptyCompact_def rel_a
      noCollision_def classifyFile_def startsWith_def uniq_def Let_def)

lemma sibling_full:
  "analyzeFile parseSibling ''/srv/shop'' siblingFile emptyFull
     = Inr (emptyFull\<lparr>level2 := [''lib/a.js'' \<mapsto>
          moduleSummary ''lib/a.js'' 0 (empty_analysis\<lparr>a_imports := [''./util'', ''react'']\<rparr>)]\<rparr>)"
  by (simp add: siblingFile_def parseSibling_def siblingBody_def emptyFull_def rel_a
      empty_analysis_def addSignatures_def Let_def)

theorem recorded_imports_witness:
  "(length ''/* two imports */'' \<le> 10000
    \<and> parseSibling (pluginsFor ''/srv/shop/lib/a.js'') True ''/* two imports */'' = Some siblingBody
    \<and> fst (analyzeFileCompact parseSibling noCollision plainLength ''/srv/shop''
             (''/srv/shop/lib/a.js'', Some ''/* two imports */'', 0) emptyCompact)
        = Inr (Some \<lparr>c_type = ''source'', c_exports = [], c_imports = [''react''], c_features = []\<rparr>))
   \<and> length (uniq (filter (\<lambda>s. \<not> isRelativeSource s) (importSources siblingBody))) \<le> 10
   \<and> (parseSibling (pluginsFor ''/srv/shop/lib/a.js'') False ''/* two imports */'' = Some siblingBody
    \<and> analyzeFile parseSibling ''/srv/shop''
         (''/srv/shop/lib/a.js'', Some ''/* two imports */'', 0) emptyFull
        = Inr (emptyFull\<lparr>level2 := [''lib/a.js'' \<mapsto>
            moduleSummary ''lib/a.js'' 0 (empty_analysis\<lparr>a_imports := [''./util'', ''react'']\<rparr>)]\<rparr>))
   \<and> set [''react''] = {s \<in> set (importSources siblingBody). \<not> isRelativeSource s}
   \<and> map_option m_imports
        (level2 (emptyFull\<lparr>level2 := [''lib/a.js'' \<mapsto>
            moduleSummary ''lib/a.js'' 0 (empty_analysis\<lparr>a_imports := [''./util'', ''react'']\<rparr>)]\<rparr>)
           (path_relative ''/srv/shop'' ''/srv/shop/lib/a.js''))
       = Some (importSources siblingBody)"
proof -
  have a: "length ''/* two imports */'' \<le> 10000
    \<and> parseSibling (pluginsFor ''/srv/shop/lib/a.js'') True ''/* two imports */'' = Some siblingBody
    \<and> fst (analyzeFileCompact parseSibling noCollision plainLength ''/srv/shop''
             (''/srv/shop/lib/a.js'', Some ''/* two imports */'', 0) emptyCompact)
        = Inr (Some \<lparr>c_type = ''source'', c_exports = [], c_imports = [''react''], c_features = []\<rparr>)"
    using sibling_compact
    by (simp add: parseSibling_def siblingFile_def del: analyzeFileCompact.simps)
  have b: "length (uniq (filter (\<lambda>s. \<not> isRelativeSource s) (importSources siblingBody))) \<le> 10"
    by (simp add: importSources_sibling relative_util not_relative_react uniq_def)
  have c: "parseSibling (pluginsFor ''/srv/shop/lib/a.js'') False ''/* two imports */'' = Some siblingBody
    \<and> analyzeFile parseSibling ''/srv/shop''
         (''/srv/shop/lib/a.js'', Some ''/* two imports */'', 0) emptyFull
        = Inr (emptyFull\<lparr>level2 := [''lib/a.js'' \<mapsto>
            moduleSummary ''lib/a.js'' 0 (empty_analysis\<lparr>a_imports := [''./util'', ''react'']\<rparr>)]\<rparr>)"
    using sibling_full
    by (simp add: parseSibling_def siblingFile_def del: analyzeFile.simps)
  note t = recorded_imports
      [of "''/* two imports */''" parseSibling "''/srv/shop/lib/a.js''" siblingBody noCollision plainLength
          "''/srv/shop''" 0 emptyCompact
          "\<lparr>c_type = ''source'', c_exports = [], c_imports = [''react''], c_features = []\<rparr>"
          emptyFull
          "emptyFull\<lparr>level2 := [''lib/a.js'' \<mapsto>
            moduleSummary ''lib/a.js'' 0 (empty_analysis\<lparr>a_imports := [''./util'', ''react'']\<rparr>)]\<rparr>"]
  note x = t[THEN conjunct1, THEN mp, OF a]
  note z = x[THEN conjunct2, THEN conjunct2, THEN mp, OF b]
  note w = t[THEN conjunct2, THEN mp, OF c]
  from a b c z w show ?thesis
    by (simp only: simp_thms compact_analysis.select_convs)
qed

text \<open>
  C4 as stated fails in the comprehensive generator, which has no filter: the import of
  \<open>./util\<close> is recorded.
\<close>

theorem comprehensive_records_relative_import:
  "isRelativeSource ''./util''
   \<and> map_option m_imports
       (level2 (analyzeAll parseSibling ''/srv/shop'' [siblingFile] emptyFull) ''lib/a.js'')
     = Some [''./util'', ''react'']"
  using sibling_full by (simp add: relative_util moduleSummary_def del: analyzeFile.simps)

section \<open>The records of the budget-aware generator\<close>

lemma analyzeFileCompact_tokens_mono:
  "currentTokens g \<le> currentTokens (snd (analyzeFileCompact parse crawl len base f g))"
  by (cases f) (auto simp: Let_def estimateTokens_def split: option.splits sum.splits prod.splits)

lemma analyzeFileCompact_caps:
  "fst (analyzeFileCompact parse crawl len base f g) = Inr (Some a) \<Longrightarrow>
     length (c_imports a) \<le> 10 \<and> length (c_exports a) \<le> 10"
  by (cases f) (auto simp: Let_def split: option.splits sum.splits prod.splits if_splits)

text \<open>Where a record of the module map after the loop comes from.\<close>

lemma analyzeLoop_origin:
  "g_modules (analyzeLoop parse crawl len base files g) k = Some a \<Longrightarrow>
     g_modules g k = Some a
     \<or> (\<exists>f \<in> set files. \<exists>g0. fst (analyzeFileCompact parse crawl len base f g0) = Inr (Some a)
            \<and> k = path_relative base (fst f))"
proof (induction files arbitrary: g)
  case Nil
  then show ?case by simp
next
  case (Cons f rest)
  show ?case
  proof (cases "currentTokens g > maxTokens * (8 / 10)")
    case True
    with Cons.prems show ?thesis by simp
  next
    case False
    obtain r g' where r: "analyzeFileCompact parse crawl len base f g = (r, g')"
      by (cases "analyzeFileCompact parse crawl len base f g")
    have m: "g_modules g' = g_modules g"
      using analyzeFileCompact_modules[of parse crawl len base f g] r by simp
    show ?thesis
    proof (cases "\<exists>b. r = Inr (Some b)")
      case True
      then obtain b where b: "r = Inr (Some b)" by blast
      with False r Cons.prems
      have "g_modules (analyzeLoop parse crawl len base rest
              (g'\<lparr>g_modules := (g_modules g')(path_relative base (fst f) \<mapsto> b)\<rparr>)) k = Some a"
        by (simp del: analyzeFileCompact.simps)
      from Cons.IH[OF this] show ?thesis
      proof
        assume "g_modules (g'\<lparr>g_modules := (g_modules g')(path_relative base (fst f) \<mapsto> b)\<rparr>) k = Some a"
        then show ?thesis
          using m r b by (auto simp del: analyzeFileCompact.simps split: if_splits intro!: bexI[of _ f] exI[of _ g])
      next
        assume "\<exists>f \<in> set rest. \<exists>g0. fst (analyzeFileCompact parse crawl len base f g0) = Inr (Some a)
            \<and> k = path_relative base (fst f)"
        then show ?thesis by auto
      qed
    next
      case no: False
      with False r Cons.prems
      have "g_modules (analyzeLoop parse crawl len base rest g') k = Some a"
        by (cases r) (auto simp del: analyzeFileCompact.simps split: option.splits)
      from Cons.IH[OF this] m show ?thesis by auto
    qed
  qed
qed

lemma fold_keeps:
  assumes "\<And>x s. p (f x s) = p s"
  shows "p (fold f xs s) = p s"
  using assms by (induction xs arbitrary: s) simp_all

lemma analyzeProject_modules: "g_modules (analyzeProject proj g) = g_modules g"
  unfolding analyzeProject_def
  by (rule fold_keeps) (simp add: Let_def split: option.splits)

lemma generateCompact_modules:
  "g_modules (generateCompact parse crawl len now proj)
     = g_modules (analyzeLoop parse crawl len (projectPath proj) (sourceFiles proj)
                    (analyzeProject proj (newCompactGen now proj)))"
  by (simp add: generateCompact_def detectPatterns_def analyzeKeyFiles_def)

text \<open>
  C2 (as amended). In the budget-aware generator a file record has at most ten imports and
  at most ten exports, whatever the file declares: this holds of every analysis that
  \<open>analyzeFileCompact\<close> returns and of every record in the module map of the index. The
  comprehensive generator, which applies no cap, is left out.
\<close>

theorem budget_variant_caps:
  "(fst (analyzeFileCompact parse crawl len base file g) = Inr (Some a) \<longrightarrow>
      length (c_imports a) \<le> 10 \<and> length (c_exports a) \<le> 10)
   \<and> (g_modules (generateCompact parse crawl len now proj) k = Some a' \<longrightarrow>
      length (c_imports a') \<le> 10 \<and> length (c_exports a') \<le> 10)"
proof (intro conjI impI)
  assume "fst (analyzeFileCompact parse crawl len base file g) = Inr (Some a)"
  then have "length (c_imports a) \<le> 10 \<and> length (c_exports a) \<le> 10"
    by (rule analyzeFileCompact_caps)
  then show "length (c_imports a) \<le> 10" and "length (c_exports a) \<le> 10" by simp_all
next
  assume "g_modules (generateCompact parse crawl len now proj) k = Some a'"
  then have "g_modules (analyzeLoop parse crawl len (projectPath proj) (sourceFiles proj)
                    (analyzeProject proj (newCompactGen now proj))) k = Some a'"
    by (simp add: generateCompact_modules)
  from analyzeLoop_origin[OF this]
  have "length (c_imports a') \<le> 10 \<and> length (c_exports a') \<le> 10"
  proof
    assume "g_modules (analyzeProject proj (newCompactGen now proj)) k = Some a'"
    then show ?thesis by (simp add: analyzeProject_modules newCompactGen_def)
  next
    assume "\<exists>f \<in> set (sourceFiles proj). \<exists>g0.
        fst (analyzeFileCompact parse crawl len (projectPath proj) f g0) = Inr (Some a')
        \<and> k = path_relative (projectPath proj) (fst f)"
    then show ?thesis using analyzeFileCompact_caps by blast
  qed
  then show "length (c_imports a') \<le> 10" and "length (c_exports a') \<le> 10" by simp_all
qed

text \<open>
  C9. Before the loop the list of candidate files, which is the enumeration without the
  paths that contain \<open>node_modules\<close>, \<open>.next\<close> or \<open>dist/\<close>, is cut to its first 50
  entries: the loop runs over these and no others, every record of the module map of the
  index belongs to one of them, and so the module map has at most 50 records, for every
  project, parser, size estimate and clock.
\<close>

theorem at_most_fifty_records:
  "(let candidates =
          filter (\<lambda>(file, c, m).
                    \<not> str_includes file ''node_modules'' \<and> \<not> str_includes file ''.next''
                    \<and> \<not> str_includes file ''dist/'')
                 (getRelevantFiles (projectPath proj) (tree proj))
    in sourceFiles proj = take 50 candidates
       \<and> g_modules (generateCompact parse crawl len now proj)
           = g_modules (analyzeLoop parse crawl len (projectPath proj) (take 50 candidates)
                          (analyzeProject proj (newCompactGen now proj)))
       \<and> dom (g_modules (generateCompact parse crawl len now proj))
           \<subseteq> (\<lambda>f. path_relative (projectPath proj) (fst f)) ` set (take 50 candidates))
   \<and> length (sourceFiles proj) \<le> 50
   \<and> finite (dom (g_modules (generateCompact parse crawl len now proj)))
   \<and> card (dom (g_modules (generateCompact parse crawl len now proj))) \<le> 50"
proof -
  let ?keys = "(\<lambda>f. path_relative (projectPath proj) (fst f)) ` set (sourceFiles proj)"
  have len: "length (sourceFiles proj) \<le> 50"
    by (simp add: sourceFiles_def)
  have sub: "dom (g_modules (generateCompact parse crawl len now proj)) \<subseteq> ?keys"
  proof
    fix k assume "k \<in> dom (g_modules (generateCompact parse crawl len now proj))"
    then obtain a where "g_modules (analyzeLoop parse crawl len (projectPath proj) (sourceFiles proj)
                    (analyzeProject proj (newCompactGen now proj))) k = Some a"
      by (auto simp: generateCompact_modules)
    from analyzeLoop_origin[OF this] show "k \<in> ?keys"
      by (auto simp: analyzeProject_modules newCompactGen_def)
  qed
  have fin: "finite ?keys" by simp
  have "card ?keys \<le> card (set (sourceFiles proj))" by (rule card_image_le) simp
  also have "\<dots> \<le> length (sourceFiles proj)" by (rule card_length)
  finally have "card ?keys \<le> 50" using len by simp
  moreover have "card (dom (g_modules (generateCompact parse crawl len now proj))) \<le> card ?keys"
    using sub fin by (rule card_mono[rotated])
  ultimately have bound: "length (sourceFiles proj) \<le> 50
   \<and> finite (dom (g_modules (generateCompact parse crawl len now proj)))
   \<and> card (dom (g_modules (generateCompact parse crawl len now proj))) \<le> 50"
    using len finite_subset[OF sub fin] by simp
  have first: "sourceFiles proj
      = take 50 (filter (\<lambda>(file, c, m).
                    \<not> str_includes file ''node_modules'' \<and> \<not> str_includes file ''.next''
                    \<and> \<not> str_includes file ''dist/'')
                 (getRelevantFiles (projectPath proj) (tree proj)))"
    by (simp add: sourceFiles_def)
  from sub generateCompact_modules[of parse crawl len now proj] bound show ?thesis
    unfolding Let_def first by (intro conjI) simp_all
qed

lemma analyzeProject_tokens: "currentTokens (analyzeProject proj g) = currentTokens g"
  unfolding analyzeProject_def
  by (rule fold_keeps) (simp add: Let_def split: option.splits)

lemma rel_many: "path_relative ''/srv/shop'' ''/srv/shop/lib/many.js'' = ''lib/many.js''"
  by (simp add: path_relative_def startsWith_def)

lemma sourceFiles_many: "sourceFiles manyProject = [manyFile]"
  by (simp add: sourceFiles_def manyProject_def manyFile_def hiddenOrModules_def isRelevantFile_def
      endsWith_def startsWith_def path_join_def)

lemma many_compact:
  "fst (analyzeFileCompact parseMany noCollision plainLength ''/srv/shop'' manyFile g)
     = Inr (Some \<lparr>c_type = ''source'', c_exports = take 10 elevenNames,
                   c_imports = take 10 elevenSources, c_features = []\<rparr>)"
  by (simp add: manyFile_def parseMany_def manyBody_def elevenSources_def elevenNames_def rel_many
      noCollision_def classifyFile_def startsWith_def uniq_def Let_def)

lemma analyzeLoop_single:
  assumes "currentTokens g \<le> maxTokens * (8 / 10)"
    and "fst (analyzeFileCompact parse crawl len base f g) = Inr (Some a)"
  shows "g_modules (analyzeLoop parse crawl len base [f] g) (path_relative base (fst f)) = Some a"
proof -
  obtain r g' where r: "analyzeFileCompact parse crawl len base f g = (r, g')"
    by (cases "analyzeFileCompact parse crawl len base f g")
  with assms show ?thesis
    by (simp del: analyzeFileCompact.simps)
qed

lemma projectPath_many: "projectPath manyProject = ''/srv/shop''"
  by (simp add: manyProject_def)

lemma many_generate:
  "g_modules (generateCompact parseMany noCollision plainLength 0 manyProject) ''lib/many.js''
     = Some \<lparr>c_type = ''source'', c_exports = take 10 elevenNames,
              c_imports = take 10 elevenSources, c_features = []\<rparr>"
proof -
  let ?g = "analyzeProject manyProject (newCompactGen 0 manyProject)"
  have t: "currentTokens ?g \<le> maxTokens * (8 / 10)"
    by (simp add: analyzeProject_tokens newCompactGen_def maxTokens_def)
  have k: "path_relative ''/srv/shop'' (fst manyFile) = ''lib/many.js''"
    by (simp add: manyFile_def rel_many)
  from analyzeLoop_single[OF t many_compact] show ?thesis
    by (simp add: generateCompact_modules sourceFiles_many projectPath_many k
        del: analyzeLoop.simps)
qed

theorem budget_variant_caps_witness:
  "fst (analyzeFileCompact parseMany noCollision plainLength ''/srv/shop'' manyFile emptyCompact)
     = Inr (Some \<lparr>c_type = ''source'', c_exports = take 10 elevenNames,
                   c_imports = take 10 elevenSources, c_features = []\<rparr>)
   \<and> g_modules (generateCompact parseMany noCollision plainLength 0 manyProject) ''lib/many.js''
     = Some \<lparr>c_type = ''source'', c_exports = take 10 elevenNames,
              c_imports = take 10 elevenSources, c_features = []\<rparr>
   \<and> length elevenSources = 11 \<and> length elevenNames = 11
   \<and> length (c_imports \<lparr>c_type = ''source'', c_exports = take 10 elevenNames,
                          c_imports = take 10 elevenSources, c_features = []\<rparr>) \<le> 10
   \<and> length (c_exports \<lparr>c_type = ''source'', c_exports = take 10 elevenNames,
                          c_imports = take 10 elevenSources, c_features = []\<rparr>) \<le> 10"
proof -
  let ?a = "\<lparr>c_type = ''source'', c_exports = take 10 elevenNames,
              c_imports = take 10 elevenSources, c_features = []\<rparr>"
  have n: "length elevenSources = 11" "length elevenNames = 11"
    by (simp_all add: elevenSources_def elevenNames_def)
  note t = budget_variant_caps
      [of parseMany noCollision plainLength "''/srv/shop''" manyFile emptyCompact ?a
          0 manyProject "''lib/many.js''" ?a]
  note r1 = t[THEN conjunct1, THEN mp, OF many_compact]
  note r2 = t[THEN conjunct2, THEN mp, OF many_generate]
  from many_compact[of emptyCompact] many_generate n r1 r2 show ?thesis
    by (simp only: simp_thms)
qed

lemma many_full:
  "level2 (analyzeAll parseMany ''/srv/shop'' [manyFile] emptyFull) ''lib/many.js''
     = Some (moduleSummary ''lib/many.js'' 0
         (empty_analysis\<lparr>a_imports := elevenSources,
                          a_exports := map (\<lambda>n. (n, ''named'')) elevenNames\<rparr>))"
  by (simp add: manyFile_def parseMany_def manyBody_def elevenSources_def elevenNames_def rel_many
      emptyFull_def empty_analysis_def addSignatures_def Let_def pushFeatureIfFetching_def
      nextjsDataFetchingFns_def)

text \<open>
  C2 as stated fails in the comprehensive generator, which has no cap: a module with eleven
  imports and an export declaration with eleven specifiers has all of them in its record.
\<close>

theorem comprehensive_records_eleven:
  "map_option m_imports
      (level2 (analyzeAll parseMany ''/srv/shop'' [manyFile] emptyFull) ''lib/many.js'')
     = Some elevenSources
   \<and> length elevenSources = 11
   \<and> map_option m_exports
      (level2 (analyzeAll parseMany ''/srv/shop'' [manyFile] emptyFull) ''lib/many.js'')
     = Some elevenNames
   \<and> length elevenNames = 11"
proof -
  have "length elevenSources = 11" "length elevenNames = 11"
    by (simp_all add: elevenSources_def elevenNames_def)
  then show ?thesis
    by (simp add: many_full moduleSummary_def comp_def del: analyzeAll.simps)
qed

section \<open>Large files\<close>

lemma analyzeFileCompact_large:
  "10000 < length code \<Longrightarrow>
     analyzeFileCompact parse crawl len base (filePath, Some code, mtime) g = (Inr None, g)"
  by simp





section \<open>The budget stop\<close>

lemma analyzeLoop_stop:
  "maxTokens * (8 / 10) < currentTokens g \<Longrightarrow> analyzeLoop parse crawl len base files g = g"
  by (cases files) simp_all

lemma analyzeLoop_append:
  "analyzeLoop parse crawl len base (pre @ post) g
     = analyzeLoop parse crawl len base post (analyzeLoop parse crawl len base pre g)"
proof (induction pre arbitrary: g)
  case Nil
  show ?case by simp
next
  case (Cons f pre)
  show ?case
  proof (cases "maxTokens * (8 / 10) < currentTokens g")
    case True
    then show ?thesis by (simp add: analyzeLoop_stop del: analyzeFileCompact.simps)
  next
    case False
    then show ?thesis
      by (simp add: Cons.IH del: analyzeFileCompact.simps
          split: prod.splits sum.splits option.splits)
  qed
qed

text \<open>
  C3. Once the running estimate exceeds 80 percent of the budget the loop changes nothing any
  more. So if the estimate exceeds the threshold after a prefix of the candidate files, the
  module map of the final index is the one reached after that prefix: the records collected
  so far are kept and no later file gets one. The pattern facts are in the final index in
  every case.
\<close>

theorem budget_stop_keeps_records_and_patterns:
  "(maxTokens * (8 / 10) < currentTokens g \<longrightarrow> analyzeLoop parse crawl len base files g = g)
   \<and> (sourceFiles proj = pre @ post
       \<and> maxTokens * (8 / 10)
           < currentTokens (analyzeLoop parse crawl len (projectPath proj) pre
                              (analyzeProject proj (newCompactGen now proj))) \<longrightarrow>
        g_modules (generateCompact parse crawl len now proj)
          = g_modules (analyzeLoop parse crawl len (projectPath proj) pre
                         (analyzeProject proj (newCompactGen now proj))))
   \<and> g_patterns (generateCompact parse crawl len now proj) = Some (patternFacts proj)"
proof (intro conjI impI)
  assume "maxTokens * (8 / 10) < currentTokens g"
  then show "analyzeLoop parse crawl len base files g = g" by (rule analyzeLoop_stop)
next
  let ?g1 = "analyzeProject proj (newCompactGen now proj)"
  assume h: "sourceFiles proj = pre @ post
       \<and> maxTokens * (8 / 10) < currentTokens (analyzeLoop parse crawl len (projectPath proj) pre ?g1)"
  then have "analyzeLoop parse crawl len (projectPath proj) (sourceFiles proj) ?g1
      = analyzeLoop parse crawl len (projectPath proj) pre ?g1"
    by (simp add: analyzeLoop_append analyzeLoop_stop del: analyzeLoop.simps)
  then show "g_modules (generateCompact parse crawl len now proj)
          = g_modules (analyzeLoop parse crawl len (projectPath proj) pre ?g1)"
    by (simp add: generateCompact_modules)
next
  show "g_patterns (generateCompact parse crawl len now proj) = Some (patternFacts proj)"
    by (simp add: generateCompact_def detectPatterns_def)
qed

lemma sourceFiles_two: "sourceFiles twoProject = [firstFile] @ [secondFile]"
  by (simp add: sourceFiles_def twoProject_def firstFile_def secondFile_def hiddenOrModules_def
      isRelevantFile_def endsWith_def startsWith_def path_join_def)

lemma projectPath_two: "projectPath twoProject = ''/srv/shop''"
  by (simp add: twoProject_def)

lemma first_loop:
  assumes "currentTokens g = 0"
  shows "currentTokens (analyzeLoop parseSibling noCollision hugeLength ''/srv/shop'' [firstFile] g) = 30000
    \<and> g_modules (analyzeLoop parseSibling noCollision hugeLength ''/srv/shop'' [firstFile] g)
        = (g_modules g)(''lib/a.js'' \<mapsto>
             \<lparr>c_type = ''source'', c_exports = [], c_imports = [''react''], c_features = []\<rparr>)"
  using assms
  by (simp add: firstFile_def parseSibling_def siblingBody_def rel_a maxTokens_def hugeLength_def
      noCollision_def estimateTokens_def classifyFile_def startsWith_def uniq_def Let_def)

theorem budget_stop_keeps_records_and_patterns_witness:
  "maxTokens * (8 / 10) < currentTokens (emptyCompact\<lparr>currentTokens := 30000\<rparr>)
   \<and> analyzeLoop parseSibling noCollision hugeLength ''/srv/shop'' [secondFile]
        (emptyCompact\<lparr>currentTokens := 30000\<rparr>) = emptyCompact\<lparr>currentTokens := 30000\<rparr>
   \<and> sourceFiles twoProject = [firstFile] @ [secondFile]
   \<and> maxTokens * (8 / 10)
        < currentTokens (analyzeLoop parseSibling noCollision hugeLength (projectPath twoProject) [firstFile]
                           (analyzeProject twoProject (newCompactGen 0 twoProject)))
   \<and> g_modules (generateCompact parseSibling noCollision hugeLength 0 twoProject) ''lib/a.js''
        = Some \<lparr>c_type = ''source'', c_exports = [], c_imports = [''react''], c_features = []\<rparr>
   \<and> g_modules (generateCompact parseSibling noCollision hugeLength 0 twoProject) ''lib/b.js'' = None
   \<and> g_patterns (generateCompact parseSibling noCollision hugeLength 0 twoProject)
        = Some (patternFacts twoProject)"
proof -
  let ?g1 = "analyzeProject twoProject (newCompactGen 0 twoProject)"
  have t0: "currentTokens ?g1 = 0"
    by (simp add: analyzeProject_tokens newCompactGen_def)
  have m0: "g_modules ?g1 = Map.empty"
    by (simp add: analyzeProject_modules newCompactGen_def)
  note fl = first_loop[OF t0]
  have a: "maxTokens * (8 / 10) < currentTokens (emptyCompact\<lparr>currentTokens := 30000\<rparr>)"
    by (simp add: maxTokens_def)
  have b: "sourceFiles twoProject = [firstFile] @ [secondFile]
     \<and> maxTokens * (8 / 10)
        < currentTokens (analyzeLoop parseSibling noCollision hugeLength (projectPath twoProject) [firstFile] ?g1)"
    using fl by (simp add: sourceFiles_two projectPath_two maxTokens_def del: analyzeLoop.simps)
  note t = budget_stop_keeps_records_and_patterns
      [of "emptyCompact\<lparr>currentTokens := 30000\<rparr>" parseSibling noCollision hugeLength "''/srv/shop''"
          "[secondFile]" twoProject "[firstFile]" "[secondFile]" 0]
  note c1 = t[THEN conjunct1, THEN mp, OF a]
  note c2 = t[THEN conjunct2, THEN conjunct1, THEN mp, OF b]
  note c3 = t[THEN conjunct2, THEN conjunct2]
  have d: "g_modules (generateCompact parseSibling noCollision hugeLength 0 twoProject) ''lib/a.js''
        = Some \<lparr>c_type = ''source'', c_exports = [], c_imports = [''react''], c_features = []\<rparr>"
    "g_modules (generateCompact parseSibling noCollision hugeLength 0 twoProject) ''lib/b.js'' = None"
    using fl m0 by (simp_all add: c2 projectPath_two del: analyzeLoop.simps)
  from a b c1 c3 d show ?thesis
    by (simp only: simp_thms)
qed

section \<open>The deep-detail map across runs\<close>














text \<open>With a directory at \<open>codebase-index.json\<close> the read fails inside the \<open>try\<close>, the write
  fails outside it, and the run ends with the exception.\<close>

lemma directory_at_output_fails:
  assumes "lookup (tree proj) [''codebase-index.json''] = Some (Dir n sub)"
  shows "previousLevel4 (readPrior jsonParse proj) = []"
    and "saveIndex jsonParse proj idx = Inl IOError"
    and "generate parse jsonParse now proj = Inl IOError"
  using assms
  by (simp_all add: readPrior_def previousLevel4_def generate_def saveIndex_def writeFileSync_def
      Let_def del: lookup.simps)

lemma run_with_directory_at_output_fails:
  "generate parse jsonParse now projectWithDirectory = Inl IOError"
  by (rule directory_at_output_fails(3)[of _ "''codebase-index.json''" "[]"])
     (simp add: projectWithDirectory_def)












section \<open>Two runs on the same project\<close>

lemma fold_commute_update:
  assumes "\<And>x s. f x (h s) = h (f x s)"
  shows "fold f xs (h s) = h (fold f xs s)"
  using assms by (induction xs arbitrary: s) simp_all

lemma analyzeProject_clock:
  "analyzeProject proj (g\<lparr>g_generated := t\<rparr>) = (analyzeProject proj g)\<lparr>g_generated := t\<rparr>"
  unfolding analyzeProject_def
  by (rule fold_commute_update) (simp add: Let_def split: option.splits)

lemma analyzeFileCompact_clock:
  "analyzeFileCompact parse crawl len base f (g\<lparr>g_generated := t\<rparr>)
     = (fst (analyzeFileCompact parse crawl len base f g),
        (snd (analyzeFileCompact parse crawl len base f g))\<lparr>g_generated := t\<rparr>)"
  by (cases f) (auto simp: Let_def split: option.splits sum.splits prod.splits)

lemma analyzeLoop_clock:
  "analyzeLoop parse crawl len base files (g\<lparr>g_generated := t\<rparr>)
     = (analyzeLoop parse crawl len base files g)\<lparr>g_generated := t\<rparr>"
proof (induction files arbitrary: g)
  case Nil
  show ?case by simp
next
  case (Cons f files)
  obtain r g' where r: "analyzeFileCompact parse crawl len base f g = (r, g')"
    by (cases "analyzeFileCompact parse crawl len base f g")
  then have r': "analyzeFileCompact parse crawl len base f (g\<lparr>g_generated := t\<rparr>)
      = (r, g'\<lparr>g_generated := t\<rparr>)"
    by (simp add: analyzeFileCompact_clock del: analyzeFileCompact.simps)
  have u: "\<And>a. g'\<lparr>g_generated := t, g_modules := (g_modules g')(path_relative base (fst f) \<mapsto> a)\<rparr>
      = (g'\<lparr>g_modules := (g_modules g')(path_relative base (fst f) \<mapsto> a)\<rparr>)\<lparr>g_generated := t\<rparr>"
    by simp
  show ?case
    by (simp add: r r' Cons.IH u del: analyzeFileCompact.simps
        split: sum.splits option.splits)
qed

lemma generateCompact_clock:
  "generateCompact parse crawl len now proj = (generateCompact parse crawl len 0 proj)\<lparr>g_generated := now\<rparr>"
proof -
  have "newCompactGen now proj = (newCompactGen 0 proj)\<lparr>g_generated := now\<rparr>"
    by (simp add: newCompactGen_def)
  then show ?thesis
    by (simp add: generateCompact_def analyzeKeyFiles_def analyzeProject_clock analyzeLoop_clock
        detectPatterns_def)
qed

text \<open>What \<open>analyzeFile\<close> does to an index depends on the file only: it throws, it leaves
  the index alone, or it adds the same entries.\<close>

lemma analyzeFile_shape:
  "(\<exists>e. \<forall>idx. analyzeFile parse base f idx = Inl e)
   \<or> (\<forall>idx. analyzeFile parse base f idx = Inr idx)
   \<or> (\<exists>k v u. \<forall>idx. analyzeFile parse base f idx
          = Inr (idx\<lparr>level2 := (level2 idx)(k \<mapsto> v), level3 := u (level3 idx)\<rparr>))"
proof -
  obtain filePath content mtime where f: "f = (filePath, content, mtime)"
    by (cases f)
  show ?thesis
  proof (cases content)
    case None
    then show ?thesis by (simp add: f)
  next
    case (Some code)
    show ?thesis
    proof (cases "parse (pluginsFor filePath) False code")
      case None
      with Some show ?thesis by (simp add: f Let_def)
    next
      case body: (Some body)
      show ?thesis
      proof (cases "traverse_list (fullVisitor filePath) [] body empty_analysis")
        case (Inl p)
        with Some body show ?thesis by (cases p) (simp add: f Let_def)
      next
        case (Inr a)
        have "\<forall>idx. analyzeFile parse base f idx
          = Inr (idx\<lparr>level2 := (level2 idx)(path_relative base filePath \<mapsto>
                         moduleSummary (path_relative base filePath) mtime a),
                      level3 := addSignatures (path_relative base filePath) a (level3 idx)\<rparr>)"
          using Some body Inr by (simp add: f Let_def)
        then show ?thesis by blast
      qed
    qed
  qed
qed

lemma analyzeFile_level1:
  assumes "analyzeFile parse base f idx = Inr idx'"
  shows "level1 idx' = level1 idx"
proof -
  from analyzeFile_shape[of parse base f]
  consider (throws) e where "\<forall>idx. analyzeFile parse base f idx = Inl e"
    | (same) "\<forall>idx. analyzeFile parse base f idx = Inr idx"
    | (adds) k v u where "\<forall>idx. analyzeFile parse base f idx
          = Inr (idx\<lparr>level2 := (level2 idx)(k \<mapsto> v), level3 := u (level3 idx)\<rparr>)"
    by blast
  then show ?thesis
  proof cases
    case throws
    then have "analyzeFile parse base f idx = Inl e" by blast
    with assms show ?thesis by (simp del: analyzeFile.simps)
  next
    case same
    then have "analyzeFile parse base f idx = Inr idx" by blast
    with assms show ?thesis by (simp del: analyzeFile.simps)
  next
    case adds
    then have "analyzeFile parse base f idx
        = Inr (idx\<lparr>level2 := (level2 idx)(k \<mapsto> v), level3 := u (level3 idx)\<rparr>)" by blast
    with assms have "idx' = idx\<lparr>level2 := (level2 idx)(k \<mapsto> v), level3 := u (level3 idx)\<rparr>"
      by (simp del: analyzeFile.simps)
    then show ?thesis by simp
  qed
qed

lemma analyzeAll_level1: "level1 (analyzeAll parse base files idx) = level1 idx"
proof (induction files arbitrary: idx)
  case Nil
  show ?case by simp
next
  case (Cons f files)
  show ?case
  proof (cases "analyzeFile parse base f idx")
    case (Inl e)
    with Cons.IH show ?thesis by (simp del: analyzeFile.simps)
  next
    case (Inr idx')
    with Cons.IH analyzeFile_level1[OF Inr] show ?thesis by (simp del: analyzeFile.simps)
  qed
qed

lemma analyzeFile_throws_alike:
  assumes "analyzeFile parse base f i1 = Inl e"
  shows "analyzeFile parse base f i2 = Inl e"
proof -
  from analyzeFile_shape[of parse base f]
  consider (throws) e' where "\<forall>idx. analyzeFile parse base f idx = Inl e'"
    | (same) "\<forall>idx. analyzeFile parse base f idx = Inr idx"
    | (adds) k v u where "\<forall>idx. analyzeFile parse base f idx
          = Inr (idx\<lparr>level2 := (level2 idx)(k \<mapsto> v), level3 := u (level3 idx)\<rparr>)"
    by blast
  then show ?thesis
  proof cases
    case throws
    then have "analyzeFile parse base f i1 = Inl e'" "analyzeFile parse base f i2 = Inl e'"
      by blast+
    with assms show ?thesis by (simp del: analyzeFile.simps)
  next
    case same
    then have "analyzeFile parse base f i1 = Inr i1" by blast
    with assms show ?thesis by (simp del: analyzeFile.simps)
  next
    case adds
    then have "analyzeFile parse base f i1
        = Inr (i1\<lparr>level2 := (level2 i1)(k \<mapsto> v), level3 := u (level3 i1)\<rparr>)" by blast
    with assms show ?thesis by (simp del: analyzeFile.simps)
  qed
qed

lemma analyzeFile_returns_alike:
  assumes r: "analyzeFile parse base f i1 = Inr j1" and l2: "level2 i1 = level2 i2"
    and l3: "level3 i1 = level3 i2"
  shows "\<exists>j2. analyzeFile parse base f i2 = Inr j2 \<and> level2 j1 = level2 j2
           \<and> level3 j1 = level3 j2"
proof -
  from analyzeFile_shape[of parse base f]
  consider (throws) e where "\<forall>idx. analyzeFile parse base f idx = Inl e"
    | (same) "\<forall>idx. analyzeFile parse base f idx = Inr idx"
    | (adds) k v u where "\<forall>idx. analyzeFile parse base f idx
          = Inr (idx\<lparr>level2 := (level2 idx)(k \<mapsto> v), level3 := u (level3 idx)\<rparr>)"
    by blast
  then show ?thesis
  proof cases
    case throws
    then have "analyzeFile parse base f i1 = Inl e" by blast
    with r show ?thesis by (simp del: analyzeFile.simps)
  next
    case same
    then have "analyzeFile parse base f i1 = Inr i1" "analyzeFile parse base f i2 = Inr i2"
      by blast+
    with r l2 l3 show ?thesis by (simp del: analyzeFile.simps)
  next
    case adds
    then have a1: "analyzeFile parse base f i1
        = Inr (i1\<lparr>level2 := (level2 i1)(k \<mapsto> v), level3 := u (level3 i1)\<rparr>)"
      and a2: "analyzeFile parse base f i2
        = Inr (i2\<lparr>level2 := (level2 i2)(k \<mapsto> v), level3 := u (level3 i2)\<rparr>)"
      by blast+
    from r a1 have "j1 = i1\<lparr>level2 := (level2 i1)(k \<mapsto> v), level3 := u (level3 i1)\<rparr>"
      by (simp del: analyzeFile.simps)
    with a2 l2 l3 show ?thesis by (simp del: analyzeFile.simps)
  qed
qed

lemma analyzeAll_alike:
  "level2 i1 = level2 i2 \<Longrightarrow> level3 i1 = level3 i2 \<Longrightarrow>
     level2 (analyzeAll parse base files i1) = level2 (analyzeAll parse base files i2)
     \<and> level3 (analyzeAll parse base files i1) = level3 (analyzeAll parse base files i2)"
proof (induction files arbitrary: i1 i2)
  case Nil
  then show ?case by simp
next
  case (Cons f files)
  show ?case
  proof (cases "analyzeFile parse base f i1")
    case (Inl e)
    from analyzeFile_throws_alike[OF Inl] have "analyzeFile parse base f i2 = Inl e" .
    with Inl Cons.IH[OF Cons.prems] show ?thesis by (simp del: analyzeFile.simps)
  next
    case (Inr j1)
    from analyzeFile_returns_alike[OF Inr Cons.prems]
    obtain j2 where j: "analyzeFile parse base f i2 = Inr j2" "level2 j1 = level2 j2"
      "level3 j1 = level3 j2" by blast
    with Inr Cons.IH[OF j(2) j(3)] show ?thesis by (simp del: analyzeFile.simps)
  qed
qed

lemma fold_alike:
  assumes "\<And>x a b. R a b \<Longrightarrow> R (f x a) (g x b)" and "R a b"
  shows "R (fold f xs a) (fold g xs b)"
  using assms by (induction xs arbitrary: a b) simp_all

lemma dirRecord_alike: "withoutTime (dirRecord t1 p sub) = withoutTime (dirRecord t2 p sub)"
  by (simp add: withoutTime_def dirRecord_def Let_def)

lemma visitDir_alike:
  "alike a b \<Longrightarrow> alike (visitDir t1 base d a) (visitDir t2 base d b)"
  by (cases d; cases a; cases b)
     (auto simp: alike_def visitDir_def Let_def fun_eq_iff dirRecord_alike)

lemma level1_alike:
  "map_option withoutTime \<circ> level1 (generateLevel1 t1 proj (newFullIndex t1 proj))
     = map_option withoutTime \<circ> level1 (generateLevel1 t2 proj (newFullIndex t2 proj))"
proof -
  let ?f = "\<lambda>t baseDir acc.
               case lookup (tree proj) (split_on CHR ''/'' baseDir) of
                 None \<Rightarrow> acc
               | Some e \<Rightarrow>
                   fold (visitDir t (projectPath proj))
                        (getAllDirsRecursively (path_join (projectPath proj) baseDir) e) acc"
  have step: "\<And>x a b. alike a b \<Longrightarrow> alike (?f t1 x a) (?f t2 x b)"
    by (auto split: option.splits intro!: fold_alike[where R = alike] visitDir_alike)
  have "alike (fold (?f t1) nextjsDirectories ({}, Map.empty))
              (fold (?f t2) nextjsDirectories ({}, Map.empty))"
    by (rule fold_alike[where R = alike, OF step]) (simp_all add: alike_def)
  then show ?thesis
    by (simp add: generateLevel1_def newFullIndex_def alike_def)
qed

lemma generateFull_level2:
  "level2 (generateFull parse jsonParse now proj)
     = level2 (analyzeAll parse (projectPath proj) (sourceFilesFull proj)
                 (generateLevel1 now proj (newFullIndex now proj)))"
  by (simp add: generateFull_def buildFull_def mergeLevel4_def analyzeRoutes_def analyzeArchitecturalPatterns_def
      analyzeSourceFiles_def Let_def)

lemma generateFull_level1:
  "level1 (generateFull parse jsonParse now proj)
     = level1 (generateLevel1 now proj (newFullIndex now proj))"
  by (simp add: generateFull_def buildFull_def mergeLevel4_def analyzeRoutes_def analyzeArchitecturalPatterns_def
      analyzeSourceFiles_def analyzeAll_level1 Let_def)

lemma output_not_relevant: "n \<in> set outputNames \<Longrightarrow> \<not> isRelevantFile n"
  by (auto simp: outputNames_def isRelevantFile_def endsWith_def)

lemma getRelevantFiles_withoutOutputs:
  "getRelevantFiles d (withoutOutputs es) = getRelevantFiles d es"
proof (induction es)
  case Nil
  show ?case by (simp add: withoutOutputs_def)
next
  case (Cons e es)
  then have ih: "getRelevantFiles d (filter (\<lambda>e. \<not> isOutputFile e) es) = getRelevantFiles d es"
    by (simp add: withoutOutputs_def)
  show ?case
    by (cases e) (simp_all add: withoutOutputs_def ih output_not_relevant)
qed

lemma basename_plain: "CHR ''/'' \<notin> set n \<Longrightarrow> basename n = n"
proof -
  assume "CHR ''/'' \<notin> set n"
  then have "takeWhile (\<lambda>c. c \<noteq> CHR ''/'') (rev n) = rev n"
    by (auto simp add: takeWhile_eq_all_conv)
  then show ?thesis by (simp only: basename_def rev_rev_ident)
qed

lemma basename_join: "CHR ''/'' \<notin> set n \<Longrightarrow> basename (path_join d n) = n"
proof -
  assume n: "CHR ''/'' \<notin> set n"
  have "takeWhile (\<lambda>c. c \<noteq> CHR ''/'') (rev n @ CHR ''/'' # rev d)
      = rev n @ takeWhile (\<lambda>c. c \<noteq> CHR ''/'') (CHR ''/'' # rev d)"
    using n by (intro takeWhile_append2) auto
  then show ?thesis by (simp add: basename_def path_join_def)
qed

lemma extname_join: "CHR ''/'' \<notin> set n \<Longrightarrow> extname (path_join d n) = extname n"
  by (simp add: extname_def basename_join basename_plain)

lemma extname_outputs:
  "extname ''code-index.json'' = ''.json''" "extname ''codebase-index.json'' = ''.json''"
  by (simp_all add: extname_def basename_def)

lemma output_not_script:
  "n \<in> set outputNames \<Longrightarrow> isRelevantFileFull n \<Longrightarrow> extname (path_join d n) = ''.json''"
  by (auto simp: outputNames_def isRelevantFileFull_def endsWith_def extname_join extname_outputs)

lemma getFilesRecursively_withoutOutputs:
  "filter scriptFile (getFilesRecursively d (withoutOutputs es))
     = filter scriptFile (getFilesRecursively d es)"
proof (induction es)
  case Nil
  show ?case by (simp add: withoutOutputs_def)
next
  case (Cons e es)
  then have ih: "filter scriptFile (getFilesRecursively d (filter (\<lambda>e. \<not> isOutputFile e) es))
      = filter scriptFile (getFilesRecursively d es)"
    by (simp add: withoutOutputs_def)
  show ?case
  proof (cases e)
    case (File n c m)
    show ?thesis
    proof (cases "n \<in> set outputNames")
      case True
      then have "isRelevantFileFull n \<Longrightarrow> \<not> scriptFile (path_join d n, c, m)"
        by (simp add: scriptFile_def output_not_script)
      with True File ih show ?thesis by (auto simp add: withoutOutputs_def)
    next
      case False
      with File ih show ?thesis by (simp add: withoutOutputs_def)
    qed
  qed (simp_all add: withoutOutputs_def ih)
qed

lemma find_filter:
  "(\<And>e. P e \<Longrightarrow> Q e) \<Longrightarrow> find P (filter Q es) = find P es"
  by (induction es) auto

lemma lookup_withoutOutputs:
  "n \<notin> set outputNames \<Longrightarrow> lookup (withoutOutputs es) (n # ns) = lookup es (n # ns)"
proof -
  assume n: "n \<notin> set outputNames"
  have f: "find (\<lambda>e. entry_name e = n) (withoutOutputs es) = find (\<lambda>e. entry_name e = n) es"
    unfolding withoutOutputs_def
  proof (rule find_filter)
    fix e assume "entry_name e = n"
    with n show "\<not> isOutputFile e" by (cases e) auto
  qed
  show ?thesis
    by (cases ns) (simp_all add: f)
qed

lemma analyzeFileCompact_structure:
  "g_structure (snd (analyzeFileCompact parse crawl len base f g)) = g_structure g"
  by (cases f) (auto simp: Let_def split: option.splits sum.splits prod.splits)

lemma analyzeLoop_structure:
  "g_structure (analyzeLoop parse crawl len base files g) = g_structure g"
proof (induction files arbitrary: g)
  case Nil
  show ?case by simp
next
  case (Cons f files)
  obtain r g' where r: "analyzeFileCompact parse crawl len base f g = (r, g')"
    by (cases "analyzeFileCompact parse crawl len base f g")
  with analyzeFileCompact_structure[of parse crawl len base f g]
  have s: "g_structure g' = g_structure g" by simp
  show ?case
    by (simp add: r s Cons.IH del: analyzeFileCompact.simps split: sum.splits option.splits)
qed

lemma critical_lookup:
  "dir \<in> set criticalDirs \<Longrightarrow>
     lookup (withoutOutputs es) (split_on CHR ''/'' dir) = lookup es (split_on CHR ''/'' dir)"
  by (auto simp: criticalDirs_def lookup_withoutOutputs outputNames_def simp del: lookup.simps)

lemma nextjs_lookup:
  "dir \<in> set nextjsDirectories \<Longrightarrow>
     lookup (withoutOutputs es) (split_on CHR ''/'' dir) = lookup es (split_on CHR ''/'' dir)"
  by (auto simp: nextjsDirectories_def lookup_withoutOutputs outputNames_def simp del: lookup.simps)

lemma fold_same:
  "(\<And>x s. x \<in> set xs \<Longrightarrow> f x s = g x s) \<Longrightarrow> fold f xs s = fold g xs s"
  by (induction xs arbitrary: s) simp_all

lemma same_lookups:
  assumes "withoutOutputs (tree p1) = withoutOutputs (tree p2)"
  shows "dir \<in> set criticalDirs \<Longrightarrow>
      lookup (tree p1) (split_on CHR ''/'' dir) = lookup (tree p2) (split_on CHR ''/'' dir)"
    and "dir \<in> set nextjsDirectories \<Longrightarrow>
      lookup (tree p1) (split_on CHR ''/'' dir) = lookup (tree p2) (split_on CHR ''/'' dir)"
  using assms critical_lookup[of dir "tree p1"] critical_lookup[of dir "tree p2"]
    nextjs_lookup[of dir "tree p1"] nextjs_lookup[of dir "tree p2"]
  by simp_all

lemma analyzeProject_outputs:
  assumes "projectPath p1 = projectPath p2" and "withoutOutputs (tree p1) = withoutOutputs (tree p2)"
  shows "analyzeProject p1 g = analyzeProject p2 g"
  unfolding analyzeProject_def
  by (rule fold_same) (simp add: same_lookups(1)[OF assms(2)] assms(1) cong: option.case_cong)

lemma sourceFiles_outputs:
  assumes "projectPath p1 = projectPath p2" and "withoutOutputs (tree p1) = withoutOutputs (tree p2)"
  shows "sourceFiles p1 = sourceFiles p2"
proof -
  have "getRelevantFiles (projectPath p1) (tree p1) = getRelevantFiles (projectPath p2) (tree p2)"
    using getRelevantFiles_withoutOutputs[of "projectPath p1" "tree p1"]
      getRelevantFiles_withoutOutputs[of "projectPath p2" "tree p2"] assms
    by simp
  then show ?thesis by (simp add: sourceFiles_def)
qed

lemma sourceFilesFull_outputs:
  assumes "projectPath p1 = projectPath p2" and "withoutOutputs (tree p1) = withoutOutputs (tree p2)"
  shows "sourceFilesFull p1 = sourceFilesFull p2"
proof -
  have "sourceFilesFull p1 = filter scriptFile (getFilesRecursively (projectPath p1) (tree p1))"
    "sourceFilesFull p2 = filter scriptFile (getFilesRecursively (projectPath p2) (tree p2))"
    by (simp_all add: sourceFilesFull_def scriptFile_def)
  then show ?thesis
    using getFilesRecursively_withoutOutputs[of "projectPath p1" "tree p1"]
      getFilesRecursively_withoutOutputs[of "projectPath p2" "tree p2"] assms
    by simp
qed

lemma level1_outputs:
  assumes pp: "projectPath p1 = projectPath p2"
    and tr: "withoutOutputs (tree p1) = withoutOutputs (tree p2)"
  shows "level1 (generateLevel1 t p1 idx) = level1 (generateLevel1 t p2 idx)"
proof -
  have "fold (\<lambda>baseDir acc.
               case lookup (tree p1) (split_on CHR ''/'' baseDir) of
                 None \<Rightarrow> acc
               | Some e \<Rightarrow>
                   fold (visitDir t (projectPath p1))
                        (getAllDirsRecursively (path_join (projectPath p1) baseDir) e) acc)
             nextjsDirectories ({}, level1 idx)
      = fold (\<lambda>baseDir acc.
               case lookup (tree p2) (split_on CHR ''/'' baseDir) of
                 None \<Rightarrow> acc
               | Some e \<Rightarrow>
                   fold (visitDir t (projectPath p2))
                        (getAllDirsRecursively (path_join (projectPath p2) baseDir) e) acc)
             nextjsDirectories ({}, level1 idx)"
    by (rule fold_same) (simp add: same_lookups(2)[OF tr] pp cong: option.case_cong)
  then show ?thesis by (simp add: generateLevel1_def)
qed

text \<open>
  C8. Two runs, at different times, on projects with the same path and manifest whose
  directory listings agree up to the files a run itself writes (in particular: two runs on
  the same project) produce the same file records and the same directory records, the time
  stamp of a directory record aside. This holds for the module and structure maps of the
  budget-aware generator and for the level 2 and level 1 maps of the comprehensive one.
\<close>

theorem two_runs_same_records:
  "projectPath p1 = projectPath p2 \<and> packageFile p1 = packageFile p2
     \<and> withoutOutputs (tree p1) = withoutOutputs (tree p2) \<longrightarrow>
   g_modules (generateCompact parse crawl len now1 p1) = g_modules (generateCompact parse crawl len now2 p2)
   \<and> g_structure (generateCompact parse crawl len now1 p1)
       = g_structure (generateCompact parse crawl len now2 p2)
   \<and> level2 (generateFull parse jsonParse now1 p1) = level2 (generateFull parse jsonParse now2 p2)
   \<and> map_option withoutTime \<circ> level1 (generateFull parse jsonParse now1 p1)
       = map_option withoutTime \<circ> level1 (generateFull parse jsonParse now2 p2)"
proof (intro impI)
  assume h: "projectPath p1 = projectPath p2 \<and> packageFile p1 = packageFile p2
     \<and> withoutOutputs (tree p1) = withoutOutputs (tree p2)"
  then have pp: "projectPath p1 = projectPath p2" and pk: "packageFile p1 = packageFile p2"
    and tr: "withoutOutputs (tree p1) = withoutOutputs (tree p2)"
    by simp_all
  have new: "newCompactGen 0 p1 = newCompactGen 0 p2"
    by (simp add: newCompactGen_def loadPackageJson_def pk)
  have loop: "analyzeLoop parse crawl len (projectPath p1) (sourceFiles p1)
        (analyzeProject p1 (newCompactGen 0 p1))
      = analyzeLoop parse crawl len (projectPath p2) (sourceFiles p2)
        (analyzeProject p2 (newCompactGen 0 p2))"
    by (simp add: pp new sourceFiles_outputs[OF pp tr] analyzeProject_outputs[OF pp tr])
  have a: "generateCompact parse crawl len now1 p1 = (generateCompact parse crawl len 0 p1)\<lparr>g_generated := now1\<rparr>"
    by (rule generateCompact_clock)
  have b: "generateCompact parse crawl len now2 p2 = (generateCompact parse crawl len 0 p2)\<lparr>g_generated := now2\<rparr>"
    by (rule generateCompact_clock)
  have m: "g_modules (generateCompact parse crawl len now1 p1) = g_modules (generateCompact parse crawl len now2 p2)"
    unfolding a b by (simp add: generateCompact_def detectPatterns_def analyzeKeyFiles_def loop)
  have s: "g_structure (generateCompact parse crawl len now1 p1)
       = g_structure (generateCompact parse crawl len now2 p2)"
    unfolding a b by (simp add: generateCompact_def detectPatterns_def analyzeKeyFiles_def loop)
  have "level2 (generateLevel1 now1 p1 (newFullIndex now1 p1))
      = level2 (generateLevel1 now2 p2 (newFullIndex now2 p2))"
    and "level3 (generateLevel1 now1 p1 (newFullIndex now1 p1))
      = level3 (generateLevel1 now2 p2 (newFullIndex now2 p2))"
    by (simp_all add: generateLevel1_def newFullIndex_def)
  from analyzeAll_alike[OF this]
  have l2: "level2 (generateFull parse jsonParse now1 p1) = level2 (generateFull parse jsonParse now2 p2)"
    by (simp add: generateFull_level2 pp sourceFilesFull_outputs[OF pp tr])
  have "level1 (generateLevel1 now2 p1 (newFullIndex now2 p1))
      = level1 (generateLevel1 now2 p2 (newFullIndex now2 p2))"
    using level1_outputs[OF pp tr, of now2 "newFullIndex now2 p1"]
    by (simp add: generateLevel1_def newFullIndex_def)
  with level1_alike[of now1 p1 now2]
  have l1: "map_option withoutTime \<circ> level1 (generateFull parse jsonParse now1 p1)
       = map_option withoutTime \<circ> level1 (generateFull parse jsonParse now2 p2)"
    by (simp only: generateFull_level1)
  from m s l2 l1 show "g_modules (generateCompact parse crawl len now1 p1) = g_modules (generateCompact parse crawl len now2 p2)
   \<and> g_structure (generateCompact parse crawl len now1 p1)
       = g_structure (generateCompact parse crawl len now2 p2)
   \<and> level2 (generateFull parse jsonParse now1 p1) = level2 (generateFull parse jsonParse now2 p2)
   \<and> map_option withoutTime \<circ> level1 (generateFull parse jsonParse now1 p1)
       = map_option withoutTime \<circ> level1 (generateFull parse jsonParse now2 p2)"
    by (simp only: simp_thms)
qed

theorem two_runs_same_records_witness:
  "(projectPath twoProject = projectPath secondRunProject
     \<and> packageFile twoProject = packageFile secondRunProject
     \<and> withoutOutputs (tree twoProject) = withoutOutputs (tree secondRunProject))
   \<and> g_modules (generateCompact parseSibling noCollision plainLength 1 twoProject)
       = g_modules (generateCompact parseSibling noCollision plainLength 2 secondRunProject)
   \<and> g_structure (generateCompact parseSibling noCollision plainLength 1 twoProject)
       = g_structure (generateCompact parseSibling noCollision plainLength 2 secondRunProject)
   \<and> level2 (generateFull parseSibling parseJson 1 twoProject)
       = level2 (generateFull parseSibling parseJson 2 secondRunProject)
   \<and> map_option withoutTime \<circ> level1 (generateFull parseSibling parseJson 1 twoProject)
       = map_option withoutTime \<circ> level1 (generateFull parseSibling parseJson 2 secondRunProject)"
proof -
  have h: "projectPath twoProject = projectPath secondRunProject
     \<and> packageFile twoProject = packageFile secondRunProject
     \<and> withoutOutputs (tree twoProject) = withoutOutputs (tree secondRunProject)"
    by (simp add: twoProject_def secondRunProject_def withoutOutputs_def outputNames_def)
  note t = two_runs_same_records
      [of twoProject secondRunProject parseSibling noCollision plainLength 1 2 parseJson, THEN mp, OF h]
  from h t show ?thesis
    by (simp only: simp_thms)
qed

end
